theory Spec2Isabelle
  imports Main "HOL-Library.Word"
begin

unbundle bit_operations_syntax

section \<open>Strings\<close>

text \<open>
  A JavaScript string is modelled as a \<^typ>\<open>string\<close> whose characters are the code units
  \<open>U+0000\<close> to \<open>U+00FF\<close>. Within that range \<open>String.prototype.trim\<close> removes the
  characters TAB, LF, VT, FF, CR, SPACE and NBSP from both ends.
\<close>

definition is_ws :: "char \<Rightarrow> bool" where
  "is_ws c = (of_char c \<in> {9, 10, 11, 12, 13, 32, 160 :: nat})"

definition trim :: "string \<Rightarrow> string" where
  "trim s = rev (dropWhile is_ws (rev (dropWhile is_ws s)))"

text \<open>\<open>xs.join(sep)\<close> on an array of strings.\<close>

fun join :: "string \<Rightarrow> string list \<Rightarrow> string" where
  "join sep [] = []"
| "join sep [x] = x"
| "join sep (x # y # ys) = x @ sep @ join sep (y # ys)"

text \<open>\<open>s.split(c)\<close> for a separator of one character; \<open>''.split(c)\<close> is \<open>['']\<close>.\<close>

fun split_char :: "char \<Rightarrow> string \<Rightarrow> string list" where
  "split_char c [] = [[]]"
| "split_char c (x # xs) =
     (if x = c then [] # split_char c xs
      else (case split_char c xs of
              [] \<Rightarrow> [[x]]
            | w # ws \<Rightarrow> (x # w) # ws))"

text \<open>\<open>values[k] || ''\<close>: an index past the end reads \<open>undefined\<close>, which is falsy.\<close>

definition field_or_empty :: "string list \<Rightarrow> nat \<Rightarrow> string" where
  "field_or_empty values k = (if k < length values then values ! k else [])"

section \<open>CSV rows and the CSV codec\<close>

datatype exn = Error string

text \<open>The text that a template literal \<open>${error}\<close> produces for a thrown \<open>Error\<close>.\<close>

fun exn_text :: "exn \<Rightarrow> string" where
  "exn_text (Error m) = ''Error: '' @ m"

record ImageUpdateCSVRow =
  product_id :: string
  product_handle :: string
  current_image_id :: string
  collection_name :: string
  new_image_url :: string

definition csvHeaders :: "string list" where
  "csvHeaders = [''product_id'', ''product_handle'', ''current_image_id'',
                 ''collection_name'', ''new_image_url'']"

definition row_fields :: "ImageUpdateCSVRow \<Rightarrow> string list" where
  "row_fields row = [product_id row, product_handle row, current_image_id row,
                     collection_name row, new_image_url row]"

text \<open>The template's CSV text: the header line, then one comma-joined line per row.\<close>

definition csvContent :: "ImageUpdateCSVRow list \<Rightarrow> string" where
  "csvContent csvData =
     join ''\<newline>'' (join '','' csvHeaders # map (\<lambda>row. join '','' (row_fields row)) csvData)"

text \<open>
  \<open>parseCSVLine\<close>: the scanner's loop over the characters of a line, with its three
  variables \<open>result\<close>, \<open>current\<close> and \<open>inQuotes\<close>.
\<close>

fun parseCSVLine_loop :: "string \<Rightarrow> string list \<Rightarrow> string \<Rightarrow> bool \<Rightarrow> string list" where
  "parseCSVLine_loop [] result current inQuotes = result @ [trim current]"
| "parseCSVLine_loop (ch # rest) result current inQuotes =
     (if ch = CHR 0x22 then parseCSVLine_loop rest result current (\<not> inQuotes)
      else if ch = CHR '','' \<and> \<not> inQuotes
        then parseCSVLine_loop rest (result @ [trim current]) [] inQuotes
      else parseCSVLine_loop rest result (current @ [ch]) inQuotes)"

definition parseCSVLine :: "string \<Rightarrow> string list" where
  "parseCSVLine line = parseCSVLine_loop line [] [] False"

definition row_of_line :: "string \<Rightarrow> ImageUpdateCSVRow" where
  "row_of_line line =
     (let values = parseCSVLine line in
      \<lparr> product_id = field_or_empty values 0,
        product_handle = field_or_empty values 1,
        current_image_id = field_or_empty values 2,
        collection_name = field_or_empty values 3,
        new_image_url = field_or_empty values 4 \<rparr>)"

text \<open>The non-blank lines of a text: \<open>split('\n').filter(line => line.trim().length > 0)\<close>.\<close>

definition nonblank_lines :: "string \<Rightarrow> string list" where
  "nonblank_lines text = filter (\<lambda>line. trim line \<noteq> []) (split_char CHR ''\<newline>'' text)"

text \<open>
  Decoding, as the process endpoint does it: no non-blank line is an error, otherwise the
  first line is the header and every later line is one row.
\<close>

definition parseCSVContent :: "string \<Rightarrow> exn + ImageUpdateCSVRow list" where
  "parseCSVContent text =
     (let lines = nonblank_lines text in
      if length lines = 0 then Inl (Error ''CSV file is empty'')
      else Inr (map row_of_line (drop 1 lines)))"

text \<open>Number to decimal text, as a template literal prints a count.\<close>

function show_nat :: "nat \<Rightarrow> string" where
  "show_nat n =
     (if n < 10 then [''0123456789'' ! n]
      else show_nat (n div 10) @ [''0123456789'' ! (n mod 10)])"
  by pat_completeness auto
termination
  by (relation "measure (\<lambda>n. n)") auto

section \<open>Record store\<close>

text \<open>
  An item of a table is a finite map from attribute names to values. The document client is
  modelled by its table: a \<open>PutCommand\<close> stores the given item under its key attribute and
  replaces the item stored under that key before, a \<open>GetCommand\<close> reads the item of a key,
  a \<open>QueryCommand\<close> returns the matching items in table order. A put whose item lacks a
  string key attribute is rejected. Failures of the transport to the store are not modelled.
\<close>

datatype attr = S string | N nat

type_synonym item = "string \<Rightarrow> attr option"

text \<open>
  An object literal such as \<open>{ status: 'failed', errorMessage: undefined }\<close>: its entries
  in order, \<open>None\<close> for the value \<open>undefined\<close>.
\<close>

type_synonym obj = "(string \<times> attr option) list"

text \<open>
  The item \<open>{ key, ...updates }\<close>: the entries of \<open>updates\<close> over the key attribute. An
  attribute whose value is \<open>undefined\<close> is not part of the stored item.
\<close>

definition spread_key :: "string \<Rightarrow> attr option \<Rightarrow> obj \<Rightarrow> item" where
  "spread_key kn kv updates =
     (\<lambda>a. case map_of updates a of
            Some v \<Rightarrow> v
          | None \<Rightarrow> (if a = kn then kv else None))"

fun table_put :: "string \<Rightarrow> item \<Rightarrow> item list \<Rightarrow> item list" where
  "table_put kn it [] = [it]"
| "table_put kn it (x # xs) =
     (if x kn = it kn then it # xs else x # table_put kn it xs)"

definition put_item :: "string \<Rightarrow> item \<Rightarrow> item list \<Rightarrow> exn + item list" where
  "put_item kn it tbl =
     (case it kn of
        Some (S k) \<Rightarrow> Inr (table_put kn it tbl)
      | _ \<Rightarrow> Inl (Error (''ValidationException: Missing the key '' @ kn @ '' in the item'')))"

definition get_item :: "string \<Rightarrow> string \<Rightarrow> item list \<Rightarrow> item option" where
  "get_item kn k tbl = find (\<lambda>x. x kn = Some (S k)) tbl"

subsection \<open>The service methods over the two tables\<close>


definition getImageUpdateOperation :: "string \<Rightarrow> item list \<Rightarrow> item option" where
  "getImageUpdateOperation operationId tbl = get_item ''operationId'' operationId tbl"

text \<open>
  \<open>updateImageUpdateOperation\<close>: the update expression is assembled from the entries with
  a defined value; when there is none the method returns without writing. Otherwise it
  sends a \<open>PutCommand\<close> with the item \<open>{ operationId, ...updates }\<close>.
\<close>

definition updateExpression :: "obj \<Rightarrow> string list" where
  "updateExpression updates =
     concat (map (\<lambda>(key, v). case v of
                                 None \<Rightarrow> []
                               | Some _ \<Rightarrow> [''#'' @ key @ '' = :'' @ key]) updates)"

definition updateImageUpdateOperation :: "string \<Rightarrow> obj \<Rightarrow> item list \<Rightarrow> exn + item list" where
  "updateImageUpdateOperation operationId updates tbl =
     (if length (updateExpression updates) = 0 then Inr tbl
      else (case put_item ''operationId''
                   (spread_key ''operationId'' (Some (S operationId)) updates) tbl of
              Inl e \<Rightarrow> Inl (Error (''Failed to update image update operation: '' @ exn_text e))
            | Inr tbl' \<Rightarrow> Inr tbl'))"

definition saveCSVFileRecord :: "item \<Rightarrow> item list \<Rightarrow> exn + item list" where
  "saveCSVFileRecord record tbl =
     (case put_item ''fileId'' record tbl of
        Inl e \<Rightarrow> Inl (Error (''Failed to save CSV file record: '' @ exn_text e))
      | Inr tbl' \<Rightarrow> Inr tbl')"

definition getCSVFilesForOperation :: "string \<Rightarrow> string \<Rightarrow> item list \<Rightarrow> item list" where
  "getCSVFilesForOperation operationId fileType tbl =
     (if fileType \<noteq> []
      then filter (\<lambda>x. x ''operationId'' = Some (S operationId)
                        \<and> x ''fileType'' = Some (S fileType)) tbl
      else filter (\<lambda>x. x ''operationId'' = Some (S operationId)) tbl)"

definition updateCSVFileRecord :: "attr option \<Rightarrow> obj \<Rightarrow> item list \<Rightarrow> exn + item list" where
  "updateCSVFileRecord fileId updates tbl =
     (case put_item ''fileId'' (spread_key ''fileId'' fileId updates) tbl of
        Inl e \<Rightarrow> Inl (Error (''Failed to update CSV file record: '' @ exn_text e))
      | Inr tbl' \<Rightarrow> Inr tbl')"

section \<open>Blob store\<close>

text \<open>
  \<open>calculateChecksum\<close>: \<open>hash = ((hash << 5) - hash) + char; hash = hash & hash\<close> keeps
  the hash a signed 32-bit integer, printed in base 16 with a leading minus sign when
  negative.
\<close>

fun checksum_loop :: "string \<Rightarrow> 32 word \<Rightarrow> 32 word" where
  "checksum_loop [] hash = hash"
| "checksum_loop (c # cs) hash = checksum_loop cs ((push_bit 5 hash - hash) + of_nat (of_char c))"

function to_hex :: "nat \<Rightarrow> string" where
  "to_hex n =
     (if n < 16 then [''0123456789abcdef'' ! n]
      else to_hex (n div 16) @ [''0123456789abcdef'' ! (n mod 16)])"
  by pat_completeness auto
termination
  by (relation "measure (\<lambda>n. n)") auto

definition calculateChecksum :: "string \<Rightarrow> string" where
  "calculateChecksum content =
     (let hash = sint (checksum_loop content 0) in
      if hash < 0 then ''-'' @ to_hex (nat (- hash)) else to_hex (nat hash))"

text \<open>\<open>Buffer.byteLength(s, 'utf8')\<close> for code units up to \<open>U+00FF\<close>.\<close>

definition byteLength :: "string \<Rightarrow> nat" where
  "byteLength s = sum_list (map (\<lambda>c. if (of_char c :: nat) < 128 then 1 else 2) s)"

text \<open>
  \<open>uploadCSVFile\<close> stores the text under a key made of the operation, the file kind and the
  clock reading \<open>now\<close> with \<open>:\<close> and \<open>.\<close> replaced by \<open>-\<close>, and returns the key, the size
  and the checksum. The bucket is the map from keys to stored texts; the metadata sent
  along with the text is read by nothing here and is left out.
\<close>

definition uploadCSVFile ::
  "string \<Rightarrow> string \<Rightarrow> string \<Rightarrow> string \<Rightarrow> (string \<rightharpoonup> string)
     \<Rightarrow> (string \<times> nat \<times> string) \<times> (string \<rightharpoonup> string)" where
  "uploadCSVFile now operationId fileType content objects =
     (let timestamp = map (\<lambda>c. if c = CHR '':'' \<or> c = CHR ''.'' then CHR ''-'' else c) now;
          s3Key = ''operations/'' @ operationId @ ''/'' @ fileType @ ''-'' @ timestamp @ ''.csv'';
          checksum = calculateChecksum content;
          fileSize = byteLength content
      in ((s3Key, fileSize, checksum), objects(s3Key \<mapsto> content)))"

text \<open>\<open>downloadCSVFile\<close>: reading a key that holds no object fails.\<close>

definition downloadCSVFile :: "attr option \<Rightarrow> (string \<rightharpoonup> string) \<Rightarrow> exn + string" where
  "downloadCSVFile s3Key objects =
     (case s3Key of
        Some (S k) \<Rightarrow>
          (case objects k of
             Some content \<Rightarrow> Inr content
           | None \<Rightarrow>
               Inl (Error (''Failed to download CSV file: ''
                           @ ''NoSuchKey: The specified key does not exist.'')))
      | _ \<Rightarrow>
          Inl (Error (''Failed to download CSV file: ''
                      @ ''NoSuchKey: The specified key does not exist.'')))"

section \<open>Catalog client\<close>

text \<open>
  Products, variants and images as the catalog returns them, with the fields the handler
  reads; identifiers are strings (\<open>gid://shopify/...\<close>), and a variant may have no image.
\<close>

record ShopifyProductImage =
  img_id :: string
  img_src :: string
  img_position :: nat

record ShopifyVariant =
  variant_id :: string
  image_id :: "string option"

record ShopifyProduct =
  prod_id :: string
  handle :: string
  variants :: "ShopifyVariant list"
  images :: "ShopifyProductImage list"

text \<open>
  The remote catalog is reached through the six methods the handler calls. Each call is
  recorded; what a call returns, or the error it throws, is a function of the calls issued
  before it and of its arguments.
\<close>

datatype call =
    GetCollection string
  | GetProductsFromCollection string nat
  | GetProduct string
  | UploadImage string string nat
  | UpdateVariantImage string string
  | DeleteImage string string

record ShopifyService =
  getCollection :: "call list \<Rightarrow> string \<Rightarrow> exn + string"
  getProductsFromCollection :: "call list \<Rightarrow> string \<Rightarrow> nat \<Rightarrow> exn + ShopifyProduct list"
  getProduct :: "call list \<Rightarrow> string \<Rightarrow> exn + ShopifyProduct"
  uploadImage :: "call list \<Rightarrow> string \<Rightarrow> string \<Rightarrow> nat \<Rightarrow> exn + ShopifyProductImage"
  updateVariantImage :: "call list \<Rightarrow> string \<Rightarrow> string \<Rightarrow> exn + unit"
  deleteImage :: "call list \<Rightarrow> string \<Rightarrow> string \<Rightarrow> exn + unit"

section \<open>The handler's surroundings\<close>

text \<open>
  What the platform supplies: the identifiers \<open>uuidv4()\<close> draws and the clock readings
  \<open>new Date().toISOString()\<close> takes (the k-th of a request), the bucket name, the URL
  parser (the protocol of a text that parses as a URL, \<open>None\<close> when the constructor
  throws), \<open>new Date(s).getTime()\<close> of a stored attribute (every attribute is given a
  time; the value NaN of a text that is no date is not modelled), and base64 decoding of
  a request body.
\<close>

record platform =
  uuidv4 :: "nat \<Rightarrow> string"
  toISOString :: "nat \<Rightarrow> string"
  bucketName :: string
  url_protocol :: "string \<Rightarrow> string option"
  getTime :: "attr option \<Rightarrow> int"
  base64_decode :: "string \<Rightarrow> string"

text \<open>
  The state the endpoints act on: the table of operations, the table of file records,
  the objects of the bucket, and the calls issued to the catalog so far.
\<close>

record world =
  operations :: "item list"
  csvFiles :: "item list"
  objects :: "string \<rightharpoonup> string"
  calls :: "call list"

section \<open>Template Builder: the create-operation endpoint\<close>




section \<open>Upload Ingestor: the upload endpoint\<close>

definition is_alnum :: "char \<Rightarrow> bool" where
  "is_alnum c =
     (let n = of_char c :: nat
      in (97 \<le> n \<and> n \<le> 122) \<or> (65 \<le> n \<and> n \<le> 90) \<or> (48 \<le> n \<and> n \<le> 57))"

text \<open>The first match of \<open>/--([a-zA-Z0-9]+)/\<close> in the body, its group.\<close>

fun boundaryMatch :: "string \<Rightarrow> string option" where
  "boundaryMatch [] = None"
| "boundaryMatch (c # cs) =
     (if c = CHR ''-'' \<and> take 1 cs = ''-'' \<and> takeWhile is_alnum (drop 1 cs) \<noteq> []
      then Some (takeWhile is_alnum (drop 1 cs))
      else boundaryMatch cs)"

text \<open>
  The first match of \<open>/Content-Type: multipart\/form-data; boundary=([^\r\n]+)/\<close>, its
  group.
\<close>

fun contentTypeMatch :: "string \<Rightarrow> string option" where
  "contentTypeMatch [] = None"
| "contentTypeMatch (c # cs) =
     (let lit = ''Content-Type: multipart/form-data; boundary='';
          v = takeWhile (\<lambda>x. x \<noteq> CHR 0x0D \<and> x \<noteq> CHR 0x0A) (drop (length lit) (c # cs))
      in if take (length lit) (c # cs) = lit \<and> v \<noteq> [] then Some v
         else contentTypeMatch cs)"

text \<open>\<open>s.split(sep)\<close> for a non-empty separator text; \<open>cur\<close> is the piece being read.\<close>

function split_str :: "string \<Rightarrow> string \<Rightarrow> string \<Rightarrow> string list" where
  "split_str sep cur s =
     (if s = [] then [cur]
      else if sep \<noteq> [] \<and> take (length sep) s = sep
        then cur # split_str sep [] (drop (length sep) s)
      else split_str sep (cur @ [hd s]) (tl s))"
  by pat_completeness auto
termination
  by (relation "measure (\<lambda>(sep, cur, s). length s)") auto

fun includes_str :: "string \<Rightarrow> string \<Rightarrow> bool" where
  "includes_str [] t = (t = [])"
| "includes_str (c # cs) t = (take (length t) (c # cs) = t \<or> includes_str cs t)"

text \<open>\<open>s.indexOf(t)\<close>, \<open>None\<close> for \<open>-1\<close>.\<close>

fun indexOf :: "string \<Rightarrow> string \<Rightarrow> nat option" where
  "indexOf [] t = (if t = [] then Some 0 else None)"
| "indexOf (c # cs) t =
     (if take (length t) (c # cs) = t then Some 0 else map_option Suc (indexOf cs t))"

text \<open>The loop over the parts; the result is \<open>csvPart\<close>, empty when no part qualifies.\<close>

fun findCsvPart :: "string list \<Rightarrow> string" where
  "findCsvPart [] = []"
| "findCsvPart (part # parts) =
     (if part = [] then findCsvPart parts
      else if includes_str part ''Content-Type: text/csv''
              \<or> includes_str part (''name='' @ [CHR 0x22] @ ''csv'' @ [CHR 0x22])
              \<or> includes_str part ''filename=''
        then (case indexOf part [CHR 0x0D, CHR 0x0A, CHR 0x0D, CHR 0x0A] of
                Some contentStart \<Rightarrow> drop (contentStart + 4) part
              | None \<Rightarrow> findCsvPart parts)
      else findCsvPart parts)"

definition multipartCsv :: "string \<Rightarrow> exn + string" where
  "multipartCsv decodedBody =
     (case (case boundaryMatch decodedBody of
              Some b \<Rightarrow> Some b
            | None \<Rightarrow> contentTypeMatch decodedBody) of
        None \<Rightarrow> Inl (Error ''Could not find multipart boundary'')
      | Some boundary \<Rightarrow>
          let parts = split_str (''--'' @ boundary) [] decodedBody;
              csvPart = findCsvPart parts
          in if csvPart = [] then Inl (Error ''No CSV file found in upload'')
             else Inr (trim csvPart))"

record upload_response =
  success_u :: bool
  message_u :: string
  recordsProcessed :: nat

text \<open>
  The endpoint. \<open>operationId\<close> is the fifth segment of the path (empty when absent),
  \<open>body\<close> the request body (empty when there is none).
\<close>

definition ingestUpload ::
  "platform \<Rightarrow> string \<Rightarrow> string \<Rightarrow> bool \<Rightarrow> world \<Rightarrow> (exn + upload_response) \<times> world" where
  "ingestUpload pf operationId body isBase64Encoded w =
     (if operationId = [] then (Inl (Error ''Operation ID is required''), w)
      else if body = [] then (Inl (Error ''No file uploaded''), w)
      else
        case (if isBase64Encoded then multipartCsv (base64_decode pf body) else Inr body) of
          Inl e \<Rightarrow> (Inl e, w)
        | Inr content \<Rightarrow>
          let lines = nonblank_lines content;
              recordCount = nat (max 0 (int (length lines) - 1));
              ((s3Key, fileSize, checksum), objects') =
                uploadCSVFile (toISOString pf 0) operationId ''upload'' content (objects w);
              w1 = w\<lparr>objects := objects'\<rparr>;
              fileId = uuidv4 pf 0;
              csvFileRecord = map_of
                [(''fileId'', S fileId),
                 (''operationId'', S operationId),
                 (''fileName'', S (''image-updates-'' @ operationId @ ''-upload.csv'')),
                 (''fileType'', S ''upload''),
                 (''s3Key'', S s3Key),
                 (''s3Bucket'', S (bucketName pf)),
                 (''fileSize'', N fileSize),
                 (''recordCount'', N recordCount),
                 (''uploadedAt'', S (toISOString pf 1)),
                 (''uploadedBy'', S ''default-user''),
                 (''checksum'', S checksum),
                 (''status'', S ''pending'')]
          in case saveCSVFileRecord csvFileRecord (csvFiles w1) of
               Inl e \<Rightarrow> (Inl e, w1)
             | Inr files' \<Rightarrow>
                 (Inr \<lparr> success_u = True,
                        message_u = ''CSV uploaded successfully'',
                        recordsProcessed = recordCount \<rparr>,
                  w1\<lparr>csvFiles := files'\<rparr>))"

section \<open>Product Grouper and Update Executor: the process endpoint\<close>

text \<open>\<open>isValidImageUrl\<close>: the text parses as a URL whose protocol is http or https.\<close>

definition isValidImageUrl :: "platform \<Rightarrow> string \<Rightarrow> bool" where
  "isValidImageUrl pf url =
     (case url_protocol pf url of
        None \<Rightarrow> False
      | Some protocol \<Rightarrow> protocol = ''http:'' \<or> protocol = ''https:'')"

text \<open>
  \<open>productGroups\<close> is a \<open>Map\<close>, iterated in the order in which its keys were first set:
  a list of keys with their rows. \<open>groupPush\<close> is \<open>has\<close>, \<open>set\<close> and \<open>get(...).push\<close>.
\<close>

fun groupPush ::
  "string \<Rightarrow> ImageUpdateCSVRow \<Rightarrow> (string \<times> ImageUpdateCSVRow list) list
     \<Rightarrow> (string \<times> ImageUpdateCSVRow list) list" where
  "groupPush k row [] = [(k, [row])]"
| "groupPush k row ((k', rows) # groups) =
     (if k' = k then (k', rows @ [row]) # groups else (k', rows) # groupPush k row groups)"

definition skipMessage :: "ImageUpdateCSVRow \<Rightarrow> string" where
  "skipMessage row =
     ''Skipping product '' @ product_id row @ '': Invalid image URL '' @ [CHR 0x22]
       @ new_image_url row @ [CHR 0x22]"

text \<open>The grouping loop over \<open>csvData\<close>, with \<open>productGroups\<close> and \<open>errors\<close>.\<close>

fun groupRows ::
  "platform \<Rightarrow> ImageUpdateCSVRow list
     \<Rightarrow> (string \<times> ImageUpdateCSVRow list) list \<times> string list
     \<Rightarrow> (string \<times> ImageUpdateCSVRow list) list \<times> string list" where
  "groupRows pf [] st = st"
| "groupRows pf (row # csvData) (productGroups, errors) =
     (if new_image_url row = [] then groupRows pf csvData (productGroups, errors)
      else if \<not> isValidImageUrl pf (new_image_url row)
        then groupRows pf csvData (productGroups, errors @ [skipMessage row])
      else groupRows pf csvData (groupPush (product_id row) row productGroups, errors))"

text \<open>\<open>Set.add\<close> on a set kept in insertion order.\<close>

definition set_add :: "string \<Rightarrow> string list \<Rightarrow> string list" where
  "set_add x xs = (if x \<in> set xs then xs else xs @ [x])"

text \<open>
  The loop re-pointing the variants that use the old image. The result is the exception
  thrown, if any, and the calls issued.
\<close>

fun updateVariants ::
  "ShopifyService \<Rightarrow> ShopifyVariant list \<Rightarrow> string \<Rightarrow> string \<Rightarrow> call list
     \<Rightarrow> exn option \<times> call list" where
  "updateVariants svc [] current newId log = (None, log)"
| "updateVariants svc (variant # vs) current newId log =
     (if image_id variant = Some current
      then (case updateVariantImage svc log (variant_id variant) newId of
              Inl e \<Rightarrow> (Some e, log @ [UpdateVariantImage (variant_id variant) newId])
            | Inr _ \<Rightarrow>
                updateVariants svc vs current newId
                  (log @ [UpdateVariantImage (variant_id variant) newId]))
      else updateVariants svc vs current newId log)"

text \<open>
  The loop \<open>for (let i = 0; i < rows.length; i++)\<close> over the rows from index \<open>i\<close> on, with
  \<open>processedImages\<close>, \<open>imagesToDelete\<close> and the counter \<open>imagesUpdated\<close>. The result is
  the exception thrown, if any, with \<open>imagesToDelete\<close>, the counter and the calls issued.
  (The guard \<open>if (!row) continue\<close> never fires: the index stays below \<open>rows.length\<close>.)
\<close>

fun processRows ::
  "ShopifyService \<Rightarrow> ShopifyProduct \<Rightarrow> string \<Rightarrow> ImageUpdateCSVRow list \<Rightarrow> nat
     \<Rightarrow> string list \<Rightarrow> string list \<Rightarrow> nat \<Rightarrow> call list
     \<Rightarrow> exn option \<times> string list \<times> nat \<times> call list" where
  "processRows svc product productId [] i processedImages imagesToDelete imagesUpdated log =
     (None, imagesToDelete, imagesUpdated, log)"
| "processRows svc product productId (row # rows) i processedImages imagesToDelete imagesUpdated log =
     (if new_image_url row \<in> set processedImages
      then processRows svc product productId rows (Suc i) processedImages imagesToDelete
             imagesUpdated log
      else
        let position = i + 1;
            log1 = log @ [UploadImage productId (new_image_url row) position]
        in case uploadImage svc log productId (new_image_url row) position of
             Inl e \<Rightarrow> (Some e, imagesToDelete, imagesUpdated, log1)
           | Inr img \<Rightarrow>
             (case (if i = 0 \<and> current_image_id row \<noteq> []
                    then updateVariants svc (variants product) (current_image_id row)
                           (img_id img) log1
                    else (None, log1)) of
                (Some e, log2) \<Rightarrow> (Some e, imagesToDelete, imagesUpdated, log2)
              | (None, log2) \<Rightarrow>
                  processRows svc product productId rows (Suc i)
                    (set_add (new_image_url row) processedImages)
                    (if current_image_id row \<noteq> []
                     then set_add (current_image_id row) imagesToDelete
                     else imagesToDelete)
                    (Suc imagesUpdated) log2))"

text \<open>The deletions: an exception of \<open>deleteImage\<close> is caught and logged, nothing more.\<close>

fun deleteImages :: "ShopifyService \<Rightarrow> string list \<Rightarrow> string \<Rightarrow> call list \<Rightarrow> call list" where
  "deleteImages svc [] productId log = log"
| "deleteImages svc (imageId # ids) productId log =
     (case deleteImage svc log imageId productId of
        Inl deleteError \<Rightarrow> deleteImages svc ids productId (log @ [DeleteImage imageId productId])
      | Inr _ \<Rightarrow> deleteImages svc ids productId (log @ [DeleteImage imageId productId]))"

text \<open>
  The \<open>try\<close> block of one product group: the exception it throws, if any, the counter and
  the calls issued.
\<close>

definition processGroup ::
  "ShopifyService \<Rightarrow> string \<Rightarrow> ImageUpdateCSVRow list \<Rightarrow> nat \<Rightarrow> call list
     \<Rightarrow> exn option \<times> nat \<times> call list" where
  "processGroup svc productId rows imagesUpdated log =
     (case getProduct svc log productId of
        Inl e \<Rightarrow> (Some e, imagesUpdated, log @ [GetProduct productId])
      | Inr product \<Rightarrow>
          (case processRows svc product productId rows 0 [] [] imagesUpdated
                  (log @ [GetProduct productId]) of
             (Some e, imagesToDelete, n, log') \<Rightarrow> (Some e, n, log')
           | (None, imagesToDelete, n, log') \<Rightarrow>
               (None, n, deleteImages svc imagesToDelete productId log')))"

definition failMessage :: "string \<Rightarrow> exn \<Rightarrow> string" where
  "failMessage productId e = ''Failed to update product '' @ productId @ '': '' @ exn_text e"

text \<open>The loop over the groups, with its \<open>catch\<close>; the state is counter, errors, calls.\<close>

fun processGroups ::
  "ShopifyService \<Rightarrow> (string \<times> ImageUpdateCSVRow list) list \<Rightarrow> nat \<times> string list \<times> call list
     \<Rightarrow> nat \<times> string list \<times> call list" where
  "processGroups svc [] st = st"
| "processGroups svc ((productId, rows) # groups) (imagesUpdated, errors, log) =
     (case processGroup svc productId rows imagesUpdated log of
        (None, n, log') \<Rightarrow> processGroups svc groups (n, errors, log')
      | (Some e, n, log') \<Rightarrow>
          processGroups svc groups (n, errors @ [failMessage productId e], log'))"

record process_response =
  success :: bool
  message :: string
  imagesUpdated :: nat
  errors :: "string list option"

text \<open>
  \<open>csvFiles.sort((a, b) => time(b) - time(a))[0]\<close>: the sort is stable, so among the
  files of the latest time the first in query order is taken.
\<close>

definition latestFile :: "platform \<Rightarrow> item list \<Rightarrow> item option" where
  "latestFile pf files =
     (case sort_key (\<lambda>f. - getTime pf (f ''uploadedAt'')) files of
        [] \<Rightarrow> None
      | f # _ \<Rightarrow> Some f)"

text \<open>The endpoint; an exception leaves the effects done before it.\<close>

definition processOperation ::
  "ShopifyService \<Rightarrow> platform \<Rightarrow> string \<Rightarrow> world \<Rightarrow> (exn + process_response) \<times> world" where
  "processOperation svc pf operationId w =
     (if operationId = [] then (Inl (Error ''Operation ID is required''), w)
      else
        let files = getCSVFilesForOperation operationId ''upload'' (csvFiles w)
        in if length files = 0
           then (Inl (Error ''No uploaded CSV found for this operation''), w)
           else
             case latestFile pf files of
               None \<Rightarrow> (Inl (Error ''No CSV file found for this operation''), w)
             | Some file \<Rightarrow>
               (case downloadCSVFile (file ''s3Key'') (objects w) of
                  Inl e \<Rightarrow> (Inl e, w)
                | Inr content \<Rightarrow>
                  (case parseCSVContent content of
                     Inl e \<Rightarrow> (Inl e, w)
                   | Inr csvData \<Rightarrow>
                     (case updateImageUpdateOperation operationId
                             [(''status'', Some (S ''processing''))] (operations w) of
                        Inl e \<Rightarrow> (Inl e, w)
                      | Inr ops1 \<Rightarrow>
                        let (productGroups, errors0) = groupRows pf csvData ([], []);
                            (n, errs, log) = processGroups svc productGroups (0, errors0, calls w);
                            finalStatus = (if length errs = 0 then ''completed'' else ''failed'');
                            w1 = w\<lparr>operations := ops1, calls := log\<rparr>
                        in case updateImageUpdateOperation operationId
                                  [(''status'', Some (S finalStatus)),
                                   (''imagesUpdated'', Some (N n)),
                                   (''errorMessage'',
                                      if length errs > 0 then Some (S (join ''; '' errs)) else None)]
                                  ops1 of
                             Inl e \<Rightarrow> (Inl e, w1)
                           | Inr ops2 \<Rightarrow>
                             let w2 = w1\<lparr>operations := ops2\<rparr>
                             in case updateCSVFileRecord (file ''fileId'')
                                       [(''status'', Some (S ''processed''))] (csvFiles w2) of
                                  Inl e \<Rightarrow> (Inl e, w2)
                                | Inr files' \<Rightarrow>
                                    (Inr \<lparr> success = True,
                                           message = ''Processed '' @ show_nat n @ '' images''
                                             @ (if length errs > 0
                                                then '' with '' @ show_nat (length errs) @ '' errors''
                                                else []),
                                           imagesUpdated = n,
                                           errors = (if length errs > 0 then Some errs else None) \<rparr>,
                                     w2\<lparr>csvFiles := files'\<rparr>)))))"

section \<open>Predicates of the statements\<close>

text \<open>
  A field that the codec carries unchanged: no comma, no double quote, no line feed, and
  no white space at either end.
\<close>

definition clean_field :: "string \<Rightarrow> bool" where
  "clean_field f =
     (CHR '','' \<notin> set f \<and> CHR 0x22 \<notin> set f \<and> CHR ''\<newline>'' \<notin> set f \<and> trim f = f)"

text \<open>The upload calls among the calls issued, and those of one URL.\<close>

fun is_upload :: "call \<Rightarrow> bool" where
  "is_upload (UploadImage productId url position) = True"
| "is_upload c = False"

fun uploads_url :: "string \<Rightarrow> call \<Rightarrow> bool" where
  "uploads_url u (UploadImage productId url position) = (url = u)"
| "uploads_url u c = False"

text \<open>
  The uploads that the rows of a group call for, from the row of index \<open>i\<close> on, when
  the URLs in \<open>seen\<close> have been uploaded already: a row whose URL was seen is passed
  over, and its index is not reused.
\<close>

fun plannedUploads :: "string \<Rightarrow> ImageUpdateCSVRow list \<Rightarrow> nat \<Rightarrow> string set \<Rightarrow> call list" where
  "plannedUploads productId [] i seen = []"
| "plannedUploads productId (row # rows) i seen =
     (if new_image_url row \<in> seen then plannedUploads productId rows (Suc i) seen
      else UploadImage productId (new_image_url row) (i + 1)
             # plannedUploads productId rows (Suc i) (insert (new_image_url row) seen))"

text \<open>
  What happens to each group during the loop over the groups, in order: the product
  identifier, the exception caught for the group (\<open>None\<close> when its \<open>try\<close> block
  completes), the number of increments of \<open>imagesUpdated\<close> and the calls issued for it.
\<close>

fun groupOutcomes ::
  "ShopifyService \<Rightarrow> (string \<times> ImageUpdateCSVRow list) list \<Rightarrow> nat \<Rightarrow> call list
     \<Rightarrow> (string \<times> exn option \<times> nat \<times> call list) list" where
  "groupOutcomes svc [] n log = []"
| "groupOutcomes svc ((productId, rows) # groups) n log =
     (case processGroup svc productId rows n log of
        (r, n', log') \<Rightarrow>
          (productId, r, n' - n, drop (length log) log') # groupOutcomes svc groups n' log')"

definition failedGroups ::
  "(string \<times> exn option \<times> nat \<times> call list) list \<Rightarrow> (string \<times> exn) list" where
  "failedGroups outs = concat (map (\<lambda>(productId, r, k, cs). case r of
                                                            None \<Rightarrow> []
                                                          | Some e \<Rightarrow> [(productId, e)]) outs)"

text \<open>The rows skipped for their URL: a new-image URL that is given and not valid.\<close>

definition invalidRows :: "platform \<Rightarrow> ImageUpdateCSVRow list \<Rightarrow> ImageUpdateCSVRow list" where
  "invalidRows pf csvData =
     filter (\<lambda>row. new_image_url row \<noteq> [] \<and> \<not> isValidImageUrl pf (new_image_url row)) csvData"




subsection \<open>Concrete surroundings\<close>

text \<open>
  A catalog for concrete runs: a collection of three products, the second without
  images; every call succeeds, except that uploading to a product listed in \<open>bad\<close>
  throws.
\<close>

definition stubProducts :: "ShopifyProduct list" where
  "stubProducts =
     [\<lparr> prod_id = ''p1'', handle = ''h1'', variants = [],
         images = [\<lparr> img_id = ''img1'', img_src = ''https://cdn.example.com/1.jpg'',
                     img_position = 1 \<rparr>,
                   \<lparr> img_id = ''img9'', img_src = ''https://cdn.example.com/9.jpg'',
                     img_position = 2 \<rparr>] \<rparr>,
      \<lparr> prod_id = ''p2'', handle = ''h2'', variants = [], images = [] \<rparr>,
      \<lparr> prod_id = ''p3'', handle = ''h3'', variants = [],
         images = [\<lparr> img_id = ''img3'', img_src = ''https://cdn.example.com/3.jpg'',
                     img_position = 1 \<rparr>] \<rparr>]"

definition stubCatalog :: "string list \<Rightarrow> ShopifyService" where
  "stubCatalog bad =
     \<lparr> getCollection = (\<lambda>log collectionId. Inr ''Coll''),
       getProductsFromCollection = (\<lambda>log collectionId limit. Inr stubProducts),
       getProduct = (\<lambda>log productId. Inr
         \<lparr> prod_id = productId, handle = ''h'',
           variants = [\<lparr> variant_id = ''v1'', image_id = Some ''img1'' \<rparr>,
                       \<lparr> variant_id = ''v2'', image_id = None \<rparr>],
           images = [] \<rparr>),
       uploadImage = (\<lambda>log productId url position.
         if productId \<in> set bad then Inl (Error ''Image upload error: 422'')
         else Inr \<lparr> img_id = ''new'', img_src = url, img_position = position \<rparr>),
       updateVariantImage = (\<lambda>log variantId imageId. Inr ()),
       deleteImage = (\<lambda>log imageId productId. Inr ()) \<rparr>"

text \<open>
  A platform for concrete runs. Its URL parser takes the text before the first colon as
  the protocol and rejects a text without colon; it is used on \<open>not-a-url\<close> and on
  \<open>https://example.com/...\<close> only, where the platform's parser decides the same.
\<close>

definition stubPlatform :: platform where
  "stubPlatform =
     \<lparr> uuidv4 = (\<lambda>k. if k = 0 then ''uuid-a'' else ''uuid-b''),
       toISOString = (\<lambda>k. ''2024-01-03T00:00:00.000Z''),
       bucketName = ''product-image-updater-store'',
       url_protocol = (\<lambda>u. if CHR '':'' \<in> set u
                             then Some (takeWhile (\<lambda>c. c \<noteq> CHR '':'') u @ '':'')
                             else None),
       getTime = (\<lambda>a. if a = Some (S ''2024-01-02T00:00:00.000Z'') then 1704153600000
                        else if a = Some (S ''2024-01-01T00:00:00.000Z'') then 1704067200000
                        else 0),
       base64_decode = (\<lambda>s. s) \<rparr>"

text \<open>
  A world for concrete runs of the process endpoint: operation \<open>op1\<close> as the template
  builder leaves it, with its template file and one uploaded file whose text is \<open>csv\<close>.
\<close>

definition stubWorld :: "string \<Rightarrow> world" where
  "stubWorld csv =
     \<lparr> operations =
         [map_of [(''operationId'', S ''op1''),
                  (''timestamp'', S ''2024-01-01T00:00:00.000Z''),
                  (''shopDomain'', S ''don-stefani-demo-store.myshopify.com''),
                  (''userId'', S ''default-user''),
                  (''userName'', S ''Default User''),
                  (''collectionId'', S ''c1''),
                  (''collectionName'', S ''Coll''),
                  (''status'', S ''pending''),
                  (''productsCount'', N 10),
                  (''imagesUpdated'', N 0)]],
       csvFiles =
         [map_of [(''fileId'', S ''f-template''), (''operationId'', S ''op1''),
                  (''fileType'', S ''template''), (''s3Key'', S ''operations/op1/template.csv''),
                  (''uploadedAt'', S ''2024-01-01T00:00:00.000Z''), (''status'', S ''pending'')],
          map_of [(''fileId'', S ''f-upload''), (''operationId'', S ''op1''),
                  (''fileType'', S ''upload''), (''s3Key'', S ''operations/op1/upload.csv''),
                  (''uploadedAt'', S ''2024-01-02T00:00:00.000Z''), (''status'', S ''pending'')]],
       objects = [''operations/op1/upload.csv'' \<mapsto> csv],
       calls = [] \<rparr>"

text \<open>A row of product \<open>productId\<close> for concrete runs.\<close>

definition stubRow :: "string \<Rightarrow> string \<Rightarrow> string \<Rightarrow> ImageUpdateCSVRow" where
  "stubRow productId currentImageId url =
     \<lparr> product_id = productId, product_handle = ''h'', current_image_id = currentImageId,
       collection_name = ''Coll'', new_image_url = url \<rparr>"

text \<open>
  Two uploaded texts for concrete runs: one row with an invalid URL; and rows for two
  products, the first with two images.
\<close>

definition csvInvalidUrl :: string where
  "csvInvalidUrl =
     ''product_id,product_handle,current_image_id,collection_name,new_image_url\<newline>''
     @ ''p1,h1,img1,Coll,not-a-url''"

definition csvTwoProducts :: string where
  "csvTwoProducts =
     ''product_id,product_handle,current_image_id,collection_name,new_image_url\<newline>''
     @ ''p1,h1,img1,Coll,https://example.com/a.jpg\<newline>''
     @ ''p1,h1,,Coll,https://example.com/b.jpg\<newline>''
     @ ''p2,h2,img2,Coll,https://example.com/c.jpg''"

declare show_nat.simps [simp del]
declare to_hex.simps [simp del]
declare split_str.simps [simp del]

section \<open>The CSV codec\<close>

lemma trim_nonblank: "\<exists>c\<in>set l. \<not> is_ws c \<Longrightarrow> trim l \<noteq> []"
proof -
  assume "\<exists>c\<in>set l. \<not> is_ws c"
  then have "dropWhile is_ws l \<noteq> []" by (simp add: dropWhile_eq_Nil_conv)
  then obtain d where d: "d \<in> set (dropWhile is_ws l)" "\<not> is_ws d"
    by (metis hd_dropWhile list.set_sel(1))
  then have "\<exists>c\<in>set (rev (dropWhile is_ws l)). \<not> is_ws c" by auto
  then have "dropWhile is_ws (rev (dropWhile is_ws l)) \<noteq> []" by (simp add: dropWhile_eq_Nil_conv)
  then show ?thesis by (simp add: trim_def)
qed

lemma trim_blank: "\<forall>c\<in>set l. is_ws c \<Longrightarrow> trim l = []"
  by (auto simp: trim_def dropWhile_eq_Nil_conv dest: set_dropWhileD)

lemma split_char_single: "c \<notin> set l \<Longrightarrow> split_char c l = [l]"
  by (induction l) auto

lemma split_char_append: "c \<notin> set l \<Longrightarrow> split_char c (l @ c # rest) = l # split_char c rest"
  by (induction l) auto

lemma split_char_ne: "split_char c s \<noteq> []"
  by (induction s) (auto split: list.splits)

lemma split_char_subset: "l \<in> set (split_char c s) \<Longrightarrow> set l \<subseteq> set s"
proof (induction s arbitrary: l)
  case Nil
  then show ?case by simp
next
  case (Cons a s)
  obtain w ws where ws: "split_char c s = w # ws"
    using split_char_ne[of c s] by (cases "split_char c s") auto
  have "set w \<subseteq> set s" "\<forall>l\<in>set ws. set l \<subseteq> set s"
    using Cons.IH ws by auto
  then show ?case using Cons.prems ws by (auto split: if_splits)
qed

lemma split_join:
  "ls \<noteq> [] \<Longrightarrow> \<forall>l\<in>set ls. c \<notin> set l \<Longrightarrow> split_char c (join [c] ls) = ls"
proof (induction ls)
  case Nil
  then show ?case by simp
next
  case (Cons a ls)
  show ?case
  proof (cases ls)
    case Nil
    then show ?thesis using Cons.prems by (simp add: split_char_single)
  next
    case (Cons b bs)
    then have "join [c] (a # ls) = a @ c # join [c] ls" by simp
    then show ?thesis using Cons.IH Cons.prems Cons by (simp add: split_char_append)
  qed
qed

lemma loop_plain:
  "CHR 0x22 \<notin> set f \<Longrightarrow> CHR '','' \<notin> set f \<Longrightarrow>
   parseCSVLine_loop (f @ rest) res cur False = parseCSVLine_loop rest res (cur @ f) False"
  by (induction f arbitrary: cur) auto

lemma loop_join:
  "fs \<noteq> [] \<Longrightarrow> \<forall>f\<in>set fs. CHR 0x22 \<notin> set f \<and> CHR '','' \<notin> set f \<Longrightarrow>
   parseCSVLine_loop (join '','' fs) res cur False = res @ trim (cur @ hd fs) # map trim (tl fs)"
proof (induction fs arbitrary: res cur)
  case Nil
  then show ?case by simp
next
  case (Cons x fs)
  show ?case
  proof (cases fs)
    case Nil
    then show ?thesis using Cons.prems loop_plain[of x "[]" res cur] by simp
  next
    case (Cons y ys)
    have "parseCSVLine_loop (x @ CHR '','' # join '','' fs) res cur False
      = parseCSVLine_loop (CHR '','' # join '','' fs) res (cur @ x) False"
      using Cons.prems by (intro loop_plain) auto
    also have "\<dots> = parseCSVLine_loop (join '','' fs) (res @ [trim (cur @ x)]) [] False"
      by simp
    also have "\<dots> = (res @ [trim (cur @ x)]) @ trim ([] @ hd fs) # map trim (tl fs)"
      using Cons.prems Cons by (intro Cons.IH) auto
    finally show ?thesis using Cons by simp
  qed
qed

lemma row_roundtrip:
  assumes "\<forall>f\<in>set (row_fields r). clean_field f"
  shows "row_of_line (join '','' (row_fields r)) = r"
proof -
  have "parseCSVLine (join '','' (row_fields r)) = row_fields r"
    unfolding parseCSVLine_def
    using assms loop_join[of "row_fields r" "[]" "[]"]
    by (simp add: row_fields_def clean_field_def)
  then show ?thesis
    by (simp add: row_of_line_def row_fields_def field_or_empty_def)
qed

lemma header_line_facts:
  "CHR ''\<newline>'' \<notin> set (join '','' csvHeaders)" "trim (join '','' csvHeaders) \<noteq> []"
  by (simp_all add: csvHeaders_def trim_def is_ws_def)

lemma row_line_facts:
  assumes "\<forall>f\<in>set (row_fields r). clean_field f"
  shows "CHR ''\<newline>'' \<notin> set (join '','' (row_fields r))"
    and "trim (join '','' (row_fields r)) \<noteq> []"
proof -
  show "CHR ''\<newline>'' \<notin> set (join '','' (row_fields r))"
    using assms by (simp add: row_fields_def clean_field_def)
  have "CHR '','' \<in> set (join '','' (row_fields r))" by (simp add: row_fields_def)
  moreover have "\<not> is_ws CHR '',''" by (simp add: is_ws_def)
  ultimately show "trim (join '','' (row_fields r)) \<noteq> []"
    by (intro trim_nonblank) blast
qed

text \<open>
  C7, as amended. For every list of rows whose five fields each contain no comma, no
  double quote and no line feed and carry no white space at either end, decoding the
  encoded text (header line, then one comma-joined line per row) gives back exactly the
  rows.
\<close>

theorem csv_roundtrip:
  assumes "\<forall>r\<in>set rows. \<forall>f\<in>set (row_fields r). clean_field f"
  shows "parseCSVContent (csvContent rows) = Inr rows"
proof -
  let ?ls = "join '','' csvHeaders # map (\<lambda>row. join '','' (row_fields row)) rows"
  have nl: "\<forall>l\<in>set ?ls. CHR ''\<newline>'' \<notin> set l"
    using assms header_line_facts(1) row_line_facts(1) by auto
  have nb: "\<forall>l\<in>set ?ls. trim l \<noteq> []"
    using assms header_line_facts(2) row_line_facts(2) by auto
  have "split_char CHR ''\<newline>'' (csvContent rows) = ?ls"
    unfolding csvContent_def using nl by (intro split_join) simp_all
  then have "nonblank_lines (csvContent rows) = ?ls"
    using nb by (simp add: nonblank_lines_def)
  moreover have "map row_of_line (map (\<lambda>row. join '','' (row_fields row)) rows) = rows"
    using assms by (induction rows) (simp_all add: row_roundtrip)
  ultimately show ?thesis by (simp add: parseCSVContent_def)
qed

theorem csv_roundtrip_witness:
  "parseCSVContent
     (csvContent [\<lparr> product_id = ''p1'', product_handle = ''h1'', current_image_id = ''img1'',
                     collection_name = ''Summer Sale'',
                     new_image_url = ''https://example.com/a.jpg'' \<rparr>,
                  \<lparr> product_id = ''p1'', product_handle = ''h1'', current_image_id = [],
                     collection_name = ''Summer Sale'', new_image_url = [] \<rparr>])
   = Inr [\<lparr> product_id = ''p1'', product_handle = ''h1'', current_image_id = ''img1'',
             collection_name = ''Summer Sale'',
             new_image_url = ''https://example.com/a.jpg'' \<rparr>,
          \<lparr> product_id = ''p1'', product_handle = ''h1'', current_image_id = [],
             collection_name = ''Summer Sale'', new_image_url = [] \<rparr>]"
  by (rule csv_roundtrip) (simp add: row_fields_def clean_field_def trim_def is_ws_def)

text \<open>
  The claim as written asks only for the absence of commas. A collection name with a
  double quote in it has no comma and does not survive: the scanner drops the quote and
  reads the rest of the line, commas included, as part of the field.
\<close>

theorem csv_roundtrip_counterexample:
  "parseCSVContent
     (csvContent [\<lparr> product_id = ''p1'', product_handle = ''h1'', current_image_id = ''img1'',
                     collection_name = [CHR ''5'', CHR 0x22, CHR '' '', CHR ''F''],
                     new_image_url = [] \<rparr>])
   = Inr [\<lparr> product_id = ''p1'', product_handle = ''h1'', current_image_id = ''img1'',
             collection_name = ''5 F,'', new_image_url = [] \<rparr>]"
  by (simp add: parseCSVContent_def csvContent_def nonblank_lines_def csvHeaders_def
      row_fields_def trim_def is_ws_def row_of_line_def parseCSVLine_def field_or_empty_def)

lemma blank_text_no_lines: "\<forall>c\<in>set text. is_ws c \<Longrightarrow> nonblank_lines text = []"
proof -
  assume ws: "\<forall>c\<in>set text. is_ws c"
  have "\<forall>l\<in>set (split_char CHR ''\<newline>'' text). trim l = []"
  proof
    fix l assume "l \<in> set (split_char CHR ''\<newline>'' text)"
    then have "set l \<subseteq> set text" by (rule split_char_subset)
    with ws show "trim l = []" by (intro trim_blank) blast
  qed
  then show ?thesis by (simp add: nonblank_lines_def filter_empty_conv)
qed

text \<open>
  C8, as amended. Decoding a text made of white space only, the empty text among them,
  is the error ``CSV file is empty''; decoding a header-only text, that is a single
  non-blank line with or without a closing line feed, yields zero rows and no error; and
  so does every text with exactly one non-blank line.
\<close>

theorem decode_empty_and_header_only:
  "((\<forall>c\<in>set text. is_ws c) \<longrightarrow> parseCSVContent text = Inl (Error ''CSV file is empty''))
   \<and> (CHR ''\<newline>'' \<notin> set h \<and> trim h \<noteq> [] \<longrightarrow>
        parseCSVContent h = Inr [] \<and> parseCSVContent (h @ ''\<newline>'') = Inr [])
   \<and> (length (nonblank_lines text) = 1 \<longrightarrow> parseCSVContent text = Inr [])"
proof (intro conjI impI)
  assume "\<forall>c\<in>set text. is_ws c"
  then show "parseCSVContent text = Inl (Error ''CSV file is empty'')"
    by (simp add: parseCSVContent_def blank_text_no_lines)
next
  assume h: "CHR ''\<newline>'' \<notin> set h \<and> trim h \<noteq> []"
  then show "parseCSVContent h = Inr []"
    by (simp add: parseCSVContent_def nonblank_lines_def split_char_single)
  have "split_char CHR ''\<newline>'' (h @ ''\<newline>'') = [h, []]"
    using h split_char_append[of "CHR ''\<newline>''" h "[]"] by simp
  then show "parseCSVContent (h @ ''\<newline>'') = Inr []"
    using h by (simp add: parseCSVContent_def nonblank_lines_def trim_def)
next
  assume "length (nonblank_lines text) = 1"
  then show "parseCSVContent text = Inr []"
    by (auto simp: parseCSVContent_def Let_def length_Suc_conv)
qed

theorem decode_empty_and_header_only_witness:
  "parseCSVContent [] = Inl (Error ''CSV file is empty'')
   \<and> parseCSVContent ''  \<newline> \<newline>'' = Inl (Error ''CSV file is empty'')
   \<and> parseCSVContent (join '','' csvHeaders) = Inr []
   \<and> parseCSVContent (join '','' csvHeaders @ ''\<newline>'') = Inr []"
  using decode_empty_and_header_only[of "[]" "join '','' csvHeaders"]
    decode_empty_and_header_only[of "''  \<newline> \<newline>''" "join '','' csvHeaders"]
    header_line_facts
  by (simp add: is_ws_def)

text \<open>
  The claim as written has the empty input decode to zero rows. It has no non-blank
  line, so it is the hard error.
\<close>

theorem decode_empty_counterexample:
  "parseCSVContent [] \<noteq> Inr []"
  by (simp add: parseCSVContent_def nonblank_lines_def trim_def)

section \<open>The record store\<close>

lemma get_put: "it kn = Some (S k) \<Longrightarrow> get_item kn k (table_put kn it tbl) = Some it"
  by (induction tbl) (auto simp: get_item_def)

lemma put_item_ok: "it kn = Some (S k) \<Longrightarrow> put_item kn it tbl = Inr (table_put kn it tbl)"
  by (simp add: put_item_def)

text \<open>
  C2. The claim asks for a merge. The method assembles an update expression and then sends
  a \<open>PutCommand\<close> with \<open>{ operationId, ...updates }\<close>, which replaces the stored item:
  after setting only \<open>status\<close> on the stored operation \<open>op1\<close>, its timestamp, collection
  identifier, user identifier and counts are gone.
\<close>

theorem update_replaces_stored_record:
  "map_sum id (map (\<lambda>it. map it [''operationId'', ''status'', ''timestamp'', ''collectionId'',
                                   ''userId'', ''productsCount'', ''imagesUpdated'']))
     (updateImageUpdateOperation ''op1'' [(''status'', Some (S ''processing''))]
        (operations (stubWorld [])))
   = Inr [[Some (S ''op1''), Some (S ''processing''), None, None, None, None, None]]"
  by (simp add: updateImageUpdateOperation_def updateExpression_def put_item_def spread_key_def
      stubWorld_def)

section \<open>The Template Builder\<close>






section \<open>The Upload Ingestor\<close>

lemma filter_table_put_new:
  "filter P tbl = [] \<Longrightarrow> P it \<Longrightarrow> filter P (table_put kn it tbl) = [it]"
  by (induction tbl) (auto split: if_splits)

lemma latestFile_single: "latestFile pf [f] = Some f"
  by (simp add: latestFile_def)

text \<open>
  C10. A non-empty plain-text body with at most one non-blank line is accepted by the
  upload endpoint: the call returns success with \<open>recordsProcessed = 0\<close>, the text is
  stored in the bucket and a File Record of kind upload, status pending and record count 0
  is persisted. When the body has no non-blank line at all and is the operation's only
  upload, it is the process endpoint that then rejects it with ``CSV file is empty''.
\<close>

theorem upload_accepts_empty_csv:
  assumes "operationId \<noteq> []" and "body \<noteq> []" and "length (nonblank_lines body) \<le> 1"
  shows "\<exists>w' key fileRecord.
           ingestUpload pf operationId body False w
             = (Inr \<lparr> success_u = True, message_u = ''CSV uploaded successfully'',
                      recordsProcessed = 0 \<rparr>, w')
         \<and> objects w' key = Some body
         \<and> get_item ''fileId'' (uuidv4 pf 0) (csvFiles w') = Some fileRecord
         \<and> fileRecord ''operationId'' = Some (S operationId)
         \<and> fileRecord ''fileType'' = Some (S ''upload'')
         \<and> fileRecord ''s3Key'' = Some (S key)
         \<and> fileRecord ''recordCount'' = Some (N 0)
         \<and> fileRecord ''status'' = Some (S ''pending'')
         \<and> (nonblank_lines body = []
              \<and> getCSVFilesForOperation operationId ''upload'' (csvFiles w) = []
              \<longrightarrow> processOperation svc pf operationId w' = (Inl (Error ''CSV file is empty''), w'))"
proof -
  obtain key fileSize checksum objs where
    up: "uploadCSVFile (toISOString pf 0) operationId ''upload'' body (objects w)
           = ((key, fileSize, checksum), objs)"
    and objs: "objs key = Some body"
    by (simp add: uploadCSVFile_def Let_def)
  define fileRecord where "fileRecord = map_of
                [(''fileId'', S (uuidv4 pf 0)),
                 (''operationId'', S operationId),
                 (''fileName'', S (''image-updates-'' @ operationId @ ''-upload.csv'')),
                 (''fileType'', S ''upload''),
                 (''s3Key'', S key),
                 (''s3Bucket'', S (bucketName pf)),
                 (''fileSize'', N fileSize),
                 (''recordCount'', N 0),
                 (''uploadedAt'', S (toISOString pf 1)),
                 (''uploadedBy'', S ''default-user''),
                 (''checksum'', S checksum),
                 (''status'', S ''pending'')]"
  define w' where "w' = w\<lparr>objects := objs, csvFiles := table_put ''fileId'' fileRecord (csvFiles w)\<rparr>"
  have rc: "nat (max 0 (int (length (nonblank_lines body)) - 1)) = 0"
    using assms(3) by simp
  have run: "ingestUpload pf operationId body False w
             = (Inr \<lparr> success_u = True, message_u = ''CSV uploaded successfully'',
                      recordsProcessed = 0 \<rparr>, w')"
    using assms(1,2) rc up
    by (simp add: ingestUpload_def Let_def saveCSVFileRecord_def put_item_def fileRecord_def w'_def)
  have rec: "fileRecord ''fileId'' = Some (S (uuidv4 pf 0))" "fileRecord ''operationId'' = Some (S operationId)"
    "fileRecord ''fileType'' = Some (S ''upload'')" "fileRecord ''s3Key'' = Some (S key)"
    "fileRecord ''recordCount'' = Some (N 0)" "fileRecord ''status'' = Some (S ''pending'')"
    by (simp_all add: fileRecord_def)
  have got: "get_item ''fileId'' (uuidv4 pf 0) (csvFiles w') = Some fileRecord"
    unfolding w'_def using rec(1) by (simp add: get_put)
  have later: "processOperation svc pf operationId w' = (Inl (Error ''CSV file is empty''), w')"
    if "nonblank_lines body = []" "getCSVFilesForOperation operationId ''upload'' (csvFiles w) = []"
  proof -
    have "getCSVFilesForOperation operationId ''upload'' (csvFiles w') = [fileRecord]"
      using that(2) rec unfolding w'_def getCSVFilesForOperation_def
      by (simp add: filter_table_put_new)
    moreover have "downloadCSVFile (fileRecord ''s3Key'') (objects w') = Inr body"
      using rec objs by (simp add: downloadCSVFile_def w'_def)
    moreover have "parseCSVContent body = Inl (Error ''CSV file is empty'')"
      using that(1) by (simp add: parseCSVContent_def)
    ultimately show ?thesis
      using assms(1) by (simp add: processOperation_def latestFile_single)
  qed
  show ?thesis
    using run objs got rec later unfolding w'_def by (intro exI[of _ w'] exI[of _ key] exI[of _ fileRecord]) (simp add: w'_def)
qed

theorem upload_accepts_empty_csv_witness:
  "\<exists>w' key fileRecord.
     ingestUpload stubPlatform ''op2'' '' \<newline>'' False (stubWorld [])
       = (Inr \<lparr> success_u = True, message_u = ''CSV uploaded successfully'',
                recordsProcessed = 0 \<rparr>, w')
     \<and> objects w' key = Some '' \<newline>''
     \<and> get_item ''fileId'' ''uuid-a'' (csvFiles w') = Some fileRecord
     \<and> fileRecord ''recordCount'' = Some (N 0)
     \<and> fileRecord ''status'' = Some (S ''pending'')
     \<and> processOperation (stubCatalog []) stubPlatform ''op2'' w'
         = (Inl (Error ''CSV file is empty''), w')"
proof -
  have "nonblank_lines '' \<newline>'' = []"
    by (simp add: nonblank_lines_def trim_def is_ws_def)
  moreover have "getCSVFilesForOperation ''op2'' ''upload'' (csvFiles (stubWorld [])) = []"
    by (simp add: getCSVFilesForOperation_def stubWorld_def)
  moreover have "uuidv4 stubPlatform 0 = ''uuid-a''"
    by (simp add: stubPlatform_def)
  ultimately show ?thesis
    using upload_accepts_empty_csv[of "''op2''" "'' \<newline>''" stubPlatform "stubWorld []" "stubCatalog []"]
    by simp blast
qed

section \<open>The Update Executor: one product group\<close>

lemma not_upload_url: "\<not> is_upload c \<Longrightarrow> \<not> uploads_url u c"
  by (cases c) auto

lemma updateVariants_log:
  "updateVariants svc vs cur newId log = (r, log') \<Longrightarrow>
   \<exists>d. log' = log @ d \<and> (\<forall>c\<in>set d. \<not> is_upload c)"
proof (induction vs arbitrary: log)
  case Nil
  then show ?case by simp
next
  case (Cons v vs)
  show ?case
  proof (cases "image_id v = Some cur")
    case False
    with Cons show ?thesis by simp
  next
    case True
    show ?thesis
    proof (cases "updateVariantImage svc log (variant_id v) newId")
      case (Inl e)
      with True Cons.prems show ?thesis by auto
    next
      case (Inr u)
      with True Cons.prems
      have "updateVariants svc vs cur newId (log @ [UpdateVariantImage (variant_id v) newId]) = (r, log')"
        by simp
      from Cons.IH[OF this] show ?thesis by auto
    qed
  qed
qed

lemma deleteImages_log:
  "\<exists>d. deleteImages svc ids pid log = log @ d \<and> (\<forall>c\<in>set d. \<not> is_upload c)"
proof (induction ids arbitrary: log)
  case Nil
  then show ?case by simp
next
  case (Cons x xs)
  obtain d where "deleteImages svc xs pid (log @ [DeleteImage x pid]) = (log @ [DeleteImage x pid]) @ d"
    "\<forall>c\<in>set d. \<not> is_upload c"
    using Cons.IH by blast
  then show ?case
    by (intro exI[of _ "DeleteImage x pid # d"]) (auto split: sum.splits)
qed

lemma set_set_add: "set (set_add x xs) = insert x (set xs)"
  by (auto simp: set_add_def)

lemma processRows_uploads:
  "processRows svc product pid rows i processed toDel n log = (r, toDel', n', log') \<Longrightarrow>
   \<exists>d k. log' = log @ d
        \<and> filter is_upload d = take k (plannedUploads pid rows i (set processed))
        \<and> (r = None \<longrightarrow> filter is_upload d = plannedUploads pid rows i (set processed)
                         \<and> n' = n + length (plannedUploads pid rows i (set processed)))
        \<and> (r \<noteq> None \<longrightarrow> Suc n' = n + length (filter is_upload d))
        \<and> n \<le> n'"
proof (induction rows arbitrary: i processed toDel n log)
  case Nil
  then show ?case by (intro exI[of _ "[]"] exI[of _ 0]) simp
next
  case (Cons row rows)
  let ?url = "new_image_url row"
  let ?up = "UploadImage pid ?url (i + 1)"
  show ?case
  proof (cases "?url \<in> set processed")
    case True
    with Cons.prems have "processRows svc product pid rows (Suc i) processed toDel n log = (r, toDel', n', log')"
      by simp
    from Cons.IH[OF this] True show ?thesis by simp
  next
    case False
    then have planned: "plannedUploads pid (row # rows) i (set processed)
                        = ?up # plannedUploads pid rows (Suc i) (insert ?url (set processed))"
      by simp
    show ?thesis
    proof (cases "uploadImage svc log pid ?url (i + 1)")
      case (Inl e)
      with False Cons.prems have "r = Some e" "n' = n" "log' = log @ [?up]"
        by (simp_all add: Let_def)
      then show ?thesis unfolding planned
        by (intro exI[of _ "[?up]"] exI[of _ 1]) simp
    next
      case (Inr img)
      define vres where "vres = (if i = 0 \<and> current_image_id row \<noteq> []
                    then updateVariants svc (variants product) (current_image_id row)
                           (img_id img) (log @ [?up])
                    else (None, log @ [?up]))"
      have step: "processRows svc product pid (row # rows) i processed toDel n log
          = (case vres of
               (Some e, log2) \<Rightarrow> (Some e, toDel, n, log2)
             | (None, log2) \<Rightarrow>
                 processRows svc product pid rows (Suc i) (set_add ?url processed)
                   (if current_image_id row \<noteq> [] then set_add (current_image_id row) toDel else toDel)
                   (Suc n) log2)"
        using False Inr unfolding vres_def by (simp add: Let_def)
      obtain rv log2 where vr: "vres = (rv, log2)" by (cases vres)
      have "\<exists>dv. log2 = (log @ [?up]) @ dv \<and> (\<forall>c\<in>set dv. \<not> is_upload c)"
      proof (cases "i = 0 \<and> current_image_id row \<noteq> []")
        case True
        then have "updateVariants svc (variants product) (current_image_id row)
                           (img_id img) (log @ [?up]) = (rv, log2)"
          using vr by (simp add: vres_def)
        then show ?thesis by (rule updateVariants_log)
      next
        case False
        then have "log2 = log @ [?up]" using vr by (auto simp: vres_def)
        then show ?thesis by simp
      qed
      then obtain dv where dv: "log2 = log @ ?up # dv" "\<forall>c\<in>set dv. \<not> is_upload c"
        by auto
      have fdv: "filter is_upload dv = []" using dv(2) by (simp add: filter_empty_conv)
      show ?thesis
      proof (cases rv)
        case (Some e)
        with vr Cons.prems have "r = Some e" "n' = n" "log' = log2"
          unfolding step by simp_all
        then show ?thesis unfolding planned using dv(1) fdv
          by (intro exI[of _ "?up # dv"] exI[of _ 1]) simp
      next
        case None
        with vr Cons.prems
        have rec: "processRows svc product pid rows (Suc i) (set_add ?url processed)
                    (if current_image_id row \<noteq> [] then set_add (current_image_id row) toDel else toDel)
                    (Suc n) log2 = (r, toDel', n', log')"
          unfolding step by simp
        from Cons.IH[OF rec, unfolded set_set_add] obtain d k where
          d: "log' = log2 @ d"
          "filter is_upload d = take k (plannedUploads pid rows (Suc i) (insert ?url (set processed)))"
          "r = None \<longrightarrow> filter is_upload d = plannedUploads pid rows (Suc i) (insert ?url (set processed))
                         \<and> n' = Suc n + length (plannedUploads pid rows (Suc i) (insert ?url (set processed)))"
          "r \<noteq> None \<longrightarrow> Suc n' = Suc n + length (filter is_upload d)"
          "Suc n \<le> n'"
          by blast
        show ?thesis unfolding planned using d dv(1) fdv
          by (intro exI[of _ "?up # dv @ d"] exI[of _ "Suc k"]) simp
      qed
    qed
  qed
qed

lemma processGroup_uploads:
  assumes "processGroup svc pid rows n log = (r, n', log')"
  shows "\<exists>d k. log' = log @ GetProduct pid # d
        \<and> filter is_upload d = take k (plannedUploads pid rows 0 {})
        \<and> (r = None \<longrightarrow> filter is_upload d = plannedUploads pid rows 0 {}
                         \<and> n' = n + length (plannedUploads pid rows 0 {}))
        \<and> (r \<noteq> None \<longrightarrow> n' \<ge> n \<and> n' \<le> n + length (filter is_upload d))"
proof (cases "getProduct svc log pid")
  case (Inl e)
  with assms have "r = Some e" "n' = n" "log' = log @ [GetProduct pid]"
    by (simp_all add: processGroup_def)
  then show ?thesis by (intro exI[of _ "[]"] exI[of _ 0]) simp
next
  case (Inr product)
  obtain r0 toDel n0 log0 where
    pr: "processRows svc product pid rows 0 [] [] n (log @ [GetProduct pid]) = (r0, toDel, n0, log0)"
    by (cases "processRows svc product pid rows 0 [] [] n (log @ [GetProduct pid])") auto
  from processRows_uploads[OF pr, unfolded list.set(1)] obtain d k where
    d: "log0 = (log @ [GetProduct pid]) @ d"
    "filter is_upload d = take k (plannedUploads pid rows 0 {})"
    "r0 = None \<longrightarrow> filter is_upload d = plannedUploads pid rows 0 {}
                         \<and> n0 = n + length (plannedUploads pid rows 0 {})"
    "r0 \<noteq> None \<longrightarrow> Suc n0 = n + length (filter is_upload d)"
    "n \<le> n0"
    by blast
  show ?thesis
  proof (cases r0)
    case (Some e)
    with assms Inr pr have res: "r = Some e" "n' = n0" "log' = log0"
      by (simp_all add: processGroup_def)
    have "Suc n0 = n + length (filter is_upload d)" using d(4) Some by simp
    then have "n' \<ge> n \<and> n' \<le> n + length (filter is_upload d)"
      using res(2) d(5) by simp
    moreover have "log' = log @ GetProduct pid # d" using res(3) d(1) by simp
    ultimately show ?thesis using d(2) res(1) by blast
  next
    case None
    with assms Inr pr have res: "r = None" "n' = n0" "log' = deleteImages svc toDel pid log0"
      by (simp_all add: processGroup_def)
    obtain dd where dd: "deleteImages svc toDel pid log0 = log0 @ dd" "\<forall>c\<in>set dd. \<not> is_upload c"
      using deleteImages_log by blast
    then have fdd: "filter is_upload dd = []" by (simp add: filter_empty_conv)
    have 1: "log' = log @ GetProduct pid # (d @ dd)" using res(3) dd(1) d(1) by simp
    have 2: "filter is_upload (d @ dd) = plannedUploads pid rows 0 {}"
      using d(3) None fdd by simp
    have 3: "n' = n + length (plannedUploads pid rows 0 {})"
      using d(3) None res(2) by simp
    have 4: "filter is_upload (d @ dd) = take (length (plannedUploads pid rows 0 {})) (plannedUploads pid rows 0 {})"
      using 2 by simp
    show ?thesis using 1 2 3 4 res(1) by blast
  qed
qed

lemma upt_Suc_shift: "[0..<Suc n] = 0 # map Suc [0..<n]"
  by (simp add: upt_conv_Cons map_Suc_upt del: upt_Suc)

lemma plannedUploads_closed:
  "plannedUploads pid rows i seen =
     [UploadImage pid (new_image_url (rows ! j)) (i + j + 1).
        j \<leftarrow> [0..<length rows],
        new_image_url (rows ! j) \<notin> seen \<union> new_image_url ` set (take j rows)]"
proof (induction rows arbitrary: i seen)
  case Nil
  then show ?case by simp
next
  case (Cons row rows)
  let ?g = "\<lambda>j. if new_image_url ((row # rows) ! j)
                     \<notin> seen \<union> new_image_url ` set (take j (row # rows))
                 then [UploadImage pid (new_image_url ((row # rows) ! j)) (i + j + 1)] else []"
  have shift: "[0..<length (row # rows)] = 0 # map Suc [0..<length rows]"
    using upt_Suc_shift[of "length rows"] by simp
  have rhs: "concat (map ?g [0..<length (row # rows)])
             = ?g 0 @ concat (map (?g \<circ> Suc) [0..<length rows])"
    unfolding shift by simp
  show ?case
  proof (cases "new_image_url row \<in> seen")
    case True
    have "plannedUploads pid (row # rows) i seen = plannedUploads pid rows (Suc i) seen"
      using True by simp
    also have "\<dots> = concat (map (\<lambda>j. if new_image_url (rows ! j)
                     \<notin> seen \<union> new_image_url ` set (take j rows)
                 then [UploadImage pid (new_image_url (rows ! j)) (Suc i + j + 1)] else [])
                 [0..<length rows])"
      by (rule Cons.IH)
    also have "\<dots> = concat (map (?g \<circ> Suc) [0..<length rows])"
      by (intro arg_cong[of _ _ concat] map_cong refl) (use True in auto)
    also have "\<dots> = concat (map ?g [0..<length (row # rows)])"
      unfolding rhs using True by simp
    finally show ?thesis .
  next
    case False
    have "plannedUploads pid (row # rows) i seen
          = UploadImage pid (new_image_url row) (i + 1)
              # plannedUploads pid rows (Suc i) (insert (new_image_url row) seen)"
      using False by simp
    also have "plannedUploads pid rows (Suc i) (insert (new_image_url row) seen)
         = concat (map (\<lambda>j. if new_image_url (rows ! j)
                     \<notin> insert (new_image_url row) seen \<union> new_image_url ` set (take j rows)
                 then [UploadImage pid (new_image_url (rows ! j)) (Suc i + j + 1)] else [])
                 [0..<length rows])"
      by (rule Cons.IH)
    also have "\<dots> = concat (map (?g \<circ> Suc) [0..<length rows])"
      by (intro arg_cong[of _ _ concat] map_cong refl) auto
    also have "UploadImage pid (new_image_url row) (i + 1) # concat (map (?g \<circ> Suc) [0..<length rows])
               = concat (map ?g [0..<length (row # rows)])"
      unfolding rhs using False by simp
    finally show ?thesis .
  qed
qed

lemma plannedUploads_count:
  "length (filter (uploads_url u) (plannedUploads pid rows i seen))
     = (if u \<in> new_image_url ` set rows - seen then 1 else 0)"
proof (induction rows arbitrary: i seen)
  case Nil
  then show ?case by simp
next
  case (Cons row rows)
  let ?v = "new_image_url row"
  show ?case
  proof (cases "?v \<in> seen")
    case True
    then have "(u \<in> new_image_url ` set (row # rows) - seen) = (u \<in> new_image_url ` set rows - seen)"
      by auto
    then show ?thesis using True Cons.IH[of "Suc i" seen] by simp
  next
    case False
    have ih: "length (filter (uploads_url u) (plannedUploads pid rows (Suc i) (insert ?v seen)))
              = (if u \<in> new_image_url ` set rows - insert ?v seen then 1 else 0)"
      by (rule Cons.IH)
    show ?thesis
    proof (cases "?v = u")
      case True
      then have "u \<in> new_image_url ` set (row # rows) - seen" "u \<notin> new_image_url ` set rows - insert ?v seen"
        using False by auto
      then show ?thesis using False True ih by simp
    next
      case neq: False
      then have "(u \<in> new_image_url ` set (row # rows) - seen)
                 = (u \<in> new_image_url ` set rows - insert ?v seen)"
        by auto
      then show ?thesis using False neq ih by simp
    qed
  qed
qed

lemma plannedUploads_length:
  "length (plannedUploads pid rows i seen) = card (new_image_url ` set rows - seen)"
proof (induction rows arbitrary: i seen)
  case Nil
  then show ?case by simp
next
  case (Cons row rows)
  show ?case
  proof (cases "new_image_url row \<in> seen")
    case True
    then have "new_image_url ` set (row # rows) - seen = new_image_url ` set rows - seen"
      by auto
    with True Cons.IH show ?thesis by simp
  next
    case False
    have "new_image_url ` set (row # rows) - seen
          = insert (new_image_url row) (new_image_url ` set rows - insert (new_image_url row) seen)"
      using False by auto
    moreover have "new_image_url row \<notin> new_image_url ` set rows - insert (new_image_url row) seen"
      by simp
    ultimately have "card (new_image_url ` set (row # rows) - seen)
          = Suc (card (new_image_url ` set rows - insert (new_image_url row) seen))"
      by (simp del: Diff_insert_absorb)
    with False Cons.IH show ?thesis by simp
  qed
qed

lemma filter_url_upload: "filter (uploads_url u) (filter is_upload d) = filter (uploads_url u) d"
  by (induction d) (auto dest: not_upload_url)

lemma distinct_first_occurrence:
  assumes "distinct (map new_image_url rows)" "j < length rows"
  shows "new_image_url (rows ! j) \<notin> new_image_url ` set (take j rows)"
proof
  assume "new_image_url (rows ! j) \<in> new_image_url ` set (take j rows)"
  then obtain k where k: "k < j" "new_image_url (rows ! k) = new_image_url (rows ! j)"
    using assms(2) by (auto simp: in_set_conv_nth)
  then have "map new_image_url rows ! k = map new_image_url rows ! j"
    using assms(2) by simp
  moreover have "(map new_image_url rows ! k = map new_image_url rows ! j) = (k = j)"
    using assms k(1) by (intro nth_eq_iff_index_eq) auto
  ultimately show False using k(1) by simp
qed

lemma length_filter_take_le: "length (filter P (take k xs)) \<le> length (filter P xs)"
proof -
  have "filter P xs = filter P (take k xs) @ filter P (drop k xs)"
    by (metis append_take_drop_id filter_append)
  then show ?thesis by simp
qed

lemma concat_map_all:
  "\<forall>j\<in>set js. P j \<Longrightarrow> concat (map (\<lambda>j. if P j then [f j] else []) js) = map f js"
  by (induction js) auto

text \<open>
  C4, as amended. The rows of a group that are uploaded are the first occurrences of
  their URLs, they are uploaded in their CSV order, and the row of index \<open>j\<close> in the
  group (counted from 0 over all rows of the group, the skipped duplicates included) is
  uploaded at position \<open>j + 1\<close>: whatever the catalog answers, the upload calls issued
  for the group are an initial part of that list, and all of it when no call fails. So
  the positions increase, and they are the consecutive 1, 2, ... if the group has no
  duplicate URL.
\<close>

theorem upload_positions:
  assumes "processGroup svc productId rows n log = (r, n', log')"
  shows "(\<exists>k. filter is_upload (drop (length log) log')
              = take k [UploadImage productId (new_image_url (rows ! j)) (j + 1).
                          j \<leftarrow> [0..<length rows],
                          new_image_url (rows ! j) \<notin> new_image_url ` set (take j rows)])
       \<and> (r = None \<longrightarrow>
            filter is_upload (drop (length log) log')
              = [UploadImage productId (new_image_url (rows ! j)) (j + 1).
                   j \<leftarrow> [0..<length rows],
                   new_image_url (rows ! j) \<notin> new_image_url ` set (take j rows)])
       \<and> (r = None \<and> distinct (map new_image_url rows) \<longrightarrow>
            filter is_upload (drop (length log) log')
              = map (\<lambda>j. UploadImage productId (new_image_url (rows ! j)) (j + 1))
                  [0..<length rows])"
proof -
  let ?L = "[UploadImage productId (new_image_url (rows ! j)) (j + 1).
               j \<leftarrow> [0..<length rows],
               new_image_url (rows ! j) \<notin> new_image_url ` set (take j rows)]"
  have closed: "plannedUploads productId rows 0 {} = ?L"
    using plannedUploads_closed[of productId rows 0 "{}"] by (simp cong: if_cong)
  obtain d k where d: "log' = log @ GetProduct productId # d"
    "filter is_upload d = take k (plannedUploads productId rows 0 {})"
    "r = None \<longrightarrow> filter is_upload d = plannedUploads productId rows 0 {}"
    using processGroup_uploads[OF assms] by blast
  have ups: "filter is_upload (drop (length log) log') = filter is_upload d"
    using d(1) by simp
  have 1: "\<exists>k. filter is_upload (drop (length log) log') = take k ?L"
    using d(2) unfolding ups closed by blast
  have 2: "r = None \<longrightarrow> filter is_upload (drop (length log) log') = ?L"
    using d(3) unfolding ups closed by blast
  have 3: "?L = map (\<lambda>j. UploadImage productId (new_image_url (rows ! j)) (j + 1)) [0..<length rows]"
    if "distinct (map new_image_url rows)"
  proof (rule concat_map_all, rule ballI)
    fix j assume "j \<in> set [0..<length rows]"
    then have "j < length rows" by simp
    with that show "new_image_url (rows ! j) \<notin> new_image_url ` set (take j rows)"
      by (rule distinct_first_occurrence)
  qed
  show ?thesis using 1 2 3 by presburger
qed

text \<open>
  C5. Processing a group never issues two upload calls for the same URL. When the
  catalog calls of the group succeed, each URL of the group, however many rows carry it,
  is uploaded by exactly one call, \<open>imagesUpdated\<close> grows by the number of distinct URLs
  (once for each), and the group adds no entry to the error list.
\<close>

theorem duplicate_url_uploaded_once:
  assumes "processGroup svc productId rows n log = (r, n', log')"
  shows "length (filter (uploads_url u) (drop (length log) log')) \<le> 1
       \<and> (r = None \<longrightarrow>
            (\<forall>v \<in> new_image_url ` set rows.
               length (filter (uploads_url v) (drop (length log) log')) = 1)
            \<and> n' = n + card (new_image_url ` set rows)
            \<and> processGroups svc [(productId, rows)] (n, errs, log) = (n', errs, log'))"
proof -
  obtain d k where d: "log' = log @ GetProduct productId # d"
    "filter is_upload d = take k (plannedUploads productId rows 0 {})"
    "r = None \<longrightarrow> filter is_upload d = plannedUploads productId rows 0 {}
                         \<and> n' = n + length (plannedUploads productId rows 0 {})"
    using processGroup_uploads[OF assms] by blast
  have ups: "filter (uploads_url v) (drop (length log) log') = filter (uploads_url v) (filter is_upload d)" for v
    unfolding filter_url_upload using d(1) by simp
  have "length (filter (uploads_url u) (take k (plannedUploads productId rows 0 {})))
        \<le> length (filter (uploads_url u) (plannedUploads productId rows 0 {}))"
    by (rule length_filter_take_le)
  also have "\<dots> \<le> 1" by (simp add: plannedUploads_count)
  finally have 1: "length (filter (uploads_url u) (drop (length log) log')) \<le> 1"
    unfolding ups d(2) .
  have 2: "length (filter (uploads_url v) (drop (length log) log')) = 1"
    if "r = None" "v \<in> new_image_url ` set rows" for v
    unfolding ups using d(3) that by (simp add: plannedUploads_count)
  have 3: "n' = n + card (new_image_url ` set rows)" if "r = None"
    using d(3) that by (simp add: plannedUploads_length)
  have 4: "processGroups svc [(productId, rows)] (n, errs, log) = (n', errs, log')" if "r = None"
    using assms that by simp
  show ?thesis using 1 2 3 4 by blast
qed

text \<open>
  The claim as written has the k-th uploaded row at position k. In a group whose second
  row repeats the URL of the first, the second upload is the third row and goes to
  position 3.
\<close>

theorem upload_positions_counterexample:
  "processGroup (stubCatalog []) ''p1''
     [\<lparr> product_id = ''p1'', product_handle = ''h1'', current_image_id = ''img1'',
         collection_name = ''Coll'', new_image_url = ''https://example.com/a.jpg'' \<rparr>,
      \<lparr> product_id = ''p1'', product_handle = ''h1'', current_image_id = [],
         collection_name = ''Coll'', new_image_url = ''https://example.com/a.jpg'' \<rparr>,
      \<lparr> product_id = ''p1'', product_handle = ''h1'', current_image_id = [],
         collection_name = ''Coll'', new_image_url = ''https://example.com/b.jpg'' \<rparr>] 0 []
   = (None, 2,
      [GetProduct ''p1'',
       UploadImage ''p1'' ''https://example.com/a.jpg'' 1,
       UpdateVariantImage ''v1'' ''new'',
       UploadImage ''p1'' ''https://example.com/b.jpg'' 3,
       DeleteImage ''img1'' ''p1''])"
  by (simp add: processGroup_def stubCatalog_def set_add_def)

theorem upload_positions_witness:
  "filter is_upload
     (drop (length [GetCollection ''c1''])
        (snd (snd (processGroup (stubCatalog []) ''p1''
           [stubRow ''p1'' ''img1'' ''https://example.com/a.jpg'',
            stubRow ''p1'' [] ''https://example.com/b.jpg'',
            stubRow ''p1'' [] ''https://example.com/c.jpg''] 4 [GetCollection ''c1'']))))
   = [UploadImage ''p1'' ''https://example.com/a.jpg'' 1,
      UploadImage ''p1'' ''https://example.com/b.jpg'' 2,
      UploadImage ''p1'' ''https://example.com/c.jpg'' 3]"
proof -
  let ?rows = "[stubRow ''p1'' ''img1'' ''https://example.com/a.jpg'',
            stubRow ''p1'' [] ''https://example.com/b.jpg'',
            stubRow ''p1'' [] ''https://example.com/c.jpg'']"
  obtain log' where run: "processGroup (stubCatalog []) ''p1'' ?rows 4 [GetCollection ''c1'']
                          = (None, 7, log')"
    by (simp add: processGroup_def stubCatalog_def stubRow_def set_add_def)
  have "distinct (map new_image_url ?rows)" by (simp add: stubRow_def)
  with upload_positions[OF run]
  have "filter is_upload (drop (length [GetCollection ''c1'']) log')
        = map (\<lambda>j. UploadImage ''p1'' (new_image_url (?rows ! j)) (j + 1)) [0..<length ?rows]"
    by blast
  also have "\<dots> = [UploadImage ''p1'' ''https://example.com/a.jpg'' 1,
      UploadImage ''p1'' ''https://example.com/b.jpg'' 2,
      UploadImage ''p1'' ''https://example.com/c.jpg'' 3]"
    by (simp add: stubRow_def upt_rec)
  finally show ?thesis by (simp only: run snd_conv)
qed

theorem duplicate_url_uploaded_once_witness:
  "processGroups (stubCatalog []) [(''p1'',
       [stubRow ''p1'' ''img1'' ''https://example.com/a.jpg'',
        stubRow ''p1'' [] ''https://example.com/a.jpg''])] (0, [], [])
   = (1, [], [GetProduct ''p1'', UploadImage ''p1'' ''https://example.com/a.jpg'' 1,
              UpdateVariantImage ''v1'' ''new'', DeleteImage ''img1'' ''p1''])
   \<and> length (filter (uploads_url ''https://example.com/a.jpg'')
         [GetProduct ''p1'', UploadImage ''p1'' ''https://example.com/a.jpg'' 1,
          UpdateVariantImage ''v1'' ''new'', DeleteImage ''img1'' ''p1'']) = 1"
proof -
  let ?rows = "[stubRow ''p1'' ''img1'' ''https://example.com/a.jpg'',
        stubRow ''p1'' [] ''https://example.com/a.jpg'']"
  have run: "processGroup (stubCatalog []) ''p1'' ?rows 0 []
             = (None, 1, [GetProduct ''p1'', UploadImage ''p1'' ''https://example.com/a.jpg'' 1,
              UpdateVariantImage ''v1'' ''new'', DeleteImage ''img1'' ''p1''])"
    by (simp add: processGroup_def stubCatalog_def stubRow_def set_add_def)
  have "''https://example.com/a.jpg'' \<in> new_image_url ` set ?rows"
    by (simp add: stubRow_def)
  with duplicate_url_uploaded_once[OF run, of "''https://example.com/a.jpg''" "[]"]
  show ?thesis by simp
qed

section \<open>The Update Executor: the loop over the groups\<close>

lemma processGroup_step:
  assumes "processGroup svc pid rows n log = (r, n', log')"
  shows "\<exists>d. drop (length log) log' = GetProduct pid # d
           \<and> log @ drop (length log) log' = log'
           \<and> n + (n' - n) = n'
           \<and> (r = None \<longrightarrow> n' - n = length (filter is_upload (GetProduct pid # d)))
           \<and> n' - n \<le> length (filter is_upload (GetProduct pid # d))"
proof -
  obtain d k where d: "log' = log @ GetProduct pid # d"
    "r = None \<longrightarrow> filter is_upload d = plannedUploads pid rows 0 {}
                         \<and> n' = n + length (plannedUploads pid rows 0 {})"
    "r \<noteq> None \<longrightarrow> n' \<ge> n \<and> n' \<le> n + length (filter is_upload d)"
    using processGroup_uploads[OF assms] by blast
  have 1: "drop (length log) log' = GetProduct pid # d" using d(1) by simp
  have 2: "n \<le> n'" using d(2,3) by (cases r) auto
  have 3: "r = None \<longrightarrow> n' - n = length (filter is_upload d)" using d(2) by auto
  have 4: "n' - n \<le> length (filter is_upload d)" using d(2,3) by (cases r) auto
  show ?thesis using 1 2 3 4 d(1) by (intro exI[of _ d]) simp
qed

lemma groupOutcomes_ids: "map fst (groupOutcomes svc groups n log) = map fst groups"
  by (induction groups arbitrary: n log) (auto split: prod.splits)

lemma groupOutcomes_entries:
  "(pid, r, k, cs) \<in> set (groupOutcomes svc groups n log) \<Longrightarrow>
   GetProduct pid \<in> set cs
   \<and> (r = None \<longrightarrow> k = length (filter is_upload cs))
   \<and> k \<le> length (filter is_upload cs)"
proof (induction groups arbitrary: n log)
  case Nil
  then show ?case by simp
next
  case (Cons g groups)
  obtain p rows where g: "g = (p, rows)" by (cases g)
  obtain r0 n0 log0 where pg: "processGroup svc p rows n log = (r0, n0, log0)"
    by (cases "processGroup svc p rows n log") auto
  from Cons.prems have "(pid, r, k, cs) = (p, r0, n0 - n, drop (length log) log0)
      \<or> (pid, r, k, cs) \<in> set (groupOutcomes svc groups n0 log0)"
    by (simp add: g pg)
  then show ?case
  proof
    assume eq: "(pid, r, k, cs) = (p, r0, n0 - n, drop (length log) log0)"
    from processGroup_step[OF pg] obtain d where
      "drop (length log) log0 = GetProduct p # d"
      "r0 = None \<longrightarrow> n0 - n = length (filter is_upload (GetProduct p # d))"
      "n0 - n \<le> length (filter is_upload (GetProduct p # d))"
      by blast
    with eq show ?thesis by auto
  next
    assume "(pid, r, k, cs) \<in> set (groupOutcomes svc groups n0 log0)"
    then show ?thesis by (rule Cons.IH)
  qed
qed

lemma processGroups_outcomes:
  "processGroups svc groups (n, errs, log) =
     (n + sum_list (map (\<lambda>(pid, r, k, cs). k) (groupOutcomes svc groups n log)),
      errs @ map (\<lambda>(pid, e). failMessage pid e) (failedGroups (groupOutcomes svc groups n log)),
      log @ concat (map (\<lambda>(pid, r, k, cs). cs) (groupOutcomes svc groups n log)))"
proof (induction groups arbitrary: n errs log)
  case Nil
  then show ?case by (simp add: failedGroups_def)
next
  case (Cons g groups)
  obtain p rows where g: "g = (p, rows)" by (cases g)
  obtain r0 n0 log0 where pg: "processGroup svc p rows n log = (r0, n0, log0)"
    by (cases "processGroup svc p rows n log") auto
  from processGroup_step[OF pg] have st: "log @ drop (length log) log0 = log0" "n + (n0 - n) = n0"
    by blast+
  have outs: "groupOutcomes svc (g # groups) n log
              = (p, r0, n0 - n, drop (length log) log0) # groupOutcomes svc groups n0 log0"
    by (simp add: g pg)
  show ?case
  proof (cases r0)
    case None
    then have "processGroups svc (g # groups) (n, errs, log) = processGroups svc groups (n0, errs, log0)"
      by (simp add: g pg)
    also note Cons.IH[of n0 errs log0]
    finally show ?thesis unfolding outs using None st
      by (simp add: failedGroups_def add.assoc[symmetric] append_assoc[symmetric] del: append_assoc)
  next
    case (Some e)
    then have "processGroups svc (g # groups) (n, errs, log)
               = processGroups svc groups (n0, errs @ [failMessage p e], log0)"
      by (simp add: g pg)
    also note Cons.IH[of n0 "errs @ [failMessage p e]" log0]
    finally show ?thesis unfolding outs using Some st
      by (simp add: failedGroups_def add.assoc[symmetric] append_assoc[symmetric] del: append_assoc)
  qed
qed

text \<open>
  C3. In the loop over the product groups every group is processed, in order, whatever
  happened to the groups before it: its product is fetched. An exception thrown while
  fetching the product, uploading or re-pointing for a group is caught and appended to the
  error list as ``Failed to update product <id>: <detail>'', so that the error list gains
  exactly one entry for each failed group, naming its product id, in order, and nothing
  else. \<open>imagesUpdated\<close> grows by the increments of all groups, which for a group that
  did not fail is the number of its upload calls.
\<close>

theorem failure_isolation:
  assumes "processGroups svc groups (n, errs, log) = (n', errs', log')"
  shows "map fst (groupOutcomes svc groups n log) = map fst groups
       \<and> (\<forall>(productId, rows) \<in> set groups. GetProduct productId \<in> set (drop (length log) log'))
       \<and> errs' = errs @ map (\<lambda>(productId, e).
                               ''Failed to update product '' @ productId @ '': '' @ exn_text e)
                            (failedGroups (groupOutcomes svc groups n log))
       \<and> n' = n + sum_list (map (\<lambda>(productId, r, k, cs). k) (groupOutcomes svc groups n log))
       \<and> (\<forall>(productId, r, k, cs) \<in> set (groupOutcomes svc groups n log).
             (r = None \<longrightarrow> k = length (filter is_upload cs))
             \<and> k \<le> length (filter is_upload cs))"
proof -
  let ?outs = "groupOutcomes svc groups n log"
  have eq: "n' = n + sum_list (map (\<lambda>(pid, r, k, cs). k) ?outs)"
    "errs' = errs @ map (\<lambda>(pid, e). failMessage pid e) (failedGroups ?outs)"
    "log' = log @ concat (map (\<lambda>(pid, r, k, cs). cs) ?outs)"
    using assms unfolding processGroups_outcomes by simp_all
  have fm: "(\<lambda>(pid, e). failMessage pid e)
            = (\<lambda>(productId, e). ''Failed to update product '' @ productId @ '': '' @ exn_text e)"
    by (simp add: failMessage_def fun_eq_iff)
  have ids: "map fst ?outs = map fst groups" by (rule groupOutcomes_ids)
  have fetched: "GetProduct productId \<in> set (drop (length log) log')"
    if "(productId, rows) \<in> set groups" for productId rows
  proof -
    from that have "productId \<in> set (map fst ?outs)" unfolding ids by force
    then obtain r k cs where o: "(productId, r, k, cs) \<in> set ?outs" by auto
    then have "GetProduct productId \<in> set cs" using groupOutcomes_entries by blast
    with o have "GetProduct productId \<in> set (concat (map (\<lambda>(pid, r, k, cs). cs) ?outs))"
      by force
    then show ?thesis unfolding eq(3) by simp
  qed
  have counts: "(r = None \<longrightarrow> k = length (filter is_upload cs)) \<and> k \<le> length (filter is_upload cs)"
    if "(productId, r, k, cs) \<in> set ?outs" for productId r k cs
    using groupOutcomes_entries[OF that] by blast
  show ?thesis
    using ids fetched eq(1) eq(2)[unfolded fm] counts by blast
qed

theorem failure_isolation_witness:
  "processGroups (stubCatalog [''p2''])
     [(''p1'', [stubRow ''p1'' ''img1'' ''https://example.com/a.jpg'']),
      (''p2'', [stubRow ''p2'' [] ''https://example.com/b.jpg'']),
      (''p3'', [stubRow ''p3'' [] ''https://example.com/c.jpg'',
                stubRow ''p3'' [] ''https://example.com/d.jpg''])] (0, [], [])
   = (3, [''Failed to update product p2: Error: Image upload error: 422''],
      [GetProduct ''p1'', UploadImage ''p1'' ''https://example.com/a.jpg'' 1,
       UpdateVariantImage ''v1'' ''new'', DeleteImage ''img1'' ''p1'',
       GetProduct ''p2'', UploadImage ''p2'' ''https://example.com/b.jpg'' 1,
       GetProduct ''p3'', UploadImage ''p3'' ''https://example.com/c.jpg'' 1,
       UploadImage ''p3'' ''https://example.com/d.jpg'' 2])
   \<and> failedGroups (groupOutcomes (stubCatalog [''p2''])
         [(''p1'', [stubRow ''p1'' ''img1'' ''https://example.com/a.jpg'']),
          (''p2'', [stubRow ''p2'' [] ''https://example.com/b.jpg'']),
          (''p3'', [stubRow ''p3'' [] ''https://example.com/c.jpg'',
                    stubRow ''p3'' [] ''https://example.com/d.jpg''])] 0 [])
       = [(''p2'', Error ''Image upload error: 422'')]"
proof -
  let ?groups = "[(''p1'', [stubRow ''p1'' ''img1'' ''https://example.com/a.jpg'']),
      (''p2'', [stubRow ''p2'' [] ''https://example.com/b.jpg'']),
      (''p3'', [stubRow ''p3'' [] ''https://example.com/c.jpg'',
                stubRow ''p3'' [] ''https://example.com/d.jpg''])]"
  have run: "processGroups (stubCatalog [''p2'']) ?groups (0, [], [])
   = (3, [''Failed to update product p2: Error: Image upload error: 422''],
      [GetProduct ''p1'', UploadImage ''p1'' ''https://example.com/a.jpg'' 1,
       UpdateVariantImage ''v1'' ''new'', DeleteImage ''img1'' ''p1'',
       GetProduct ''p2'', UploadImage ''p2'' ''https://example.com/b.jpg'' 1,
       GetProduct ''p3'', UploadImage ''p3'' ''https://example.com/c.jpg'' 1,
       UploadImage ''p3'' ''https://example.com/d.jpg'' 2])"
    by (simp add: processGroup_def stubCatalog_def stubRow_def set_add_def failMessage_def)
  have "[''Failed to update product p2: Error: Image upload error: 422'']
        = [] @ map (\<lambda>(productId, e).
                               ''Failed to update product '' @ productId @ '': '' @ exn_text e)
                            (failedGroups (groupOutcomes (stubCatalog [''p2'']) ?groups 0 []))"
    using failure_isolation[OF run] by blast
  then have "failedGroups (groupOutcomes (stubCatalog [''p2'']) ?groups 0 [])
             = [(''p2'', Error ''Image upload error: 422'')]"
    by (simp add: processGroup_def stubCatalog_def stubRow_def set_add_def failedGroups_def)
  with run show ?thesis by simp
qed

section \<open>The process endpoint\<close>

lemma groupRows_errors:
  "snd (groupRows pf csvData (groups, errs)) = errs @ map skipMessage (invalidRows pf csvData)"
  by (induction csvData arbitrary: groups errs) (auto simp: invalidRows_def)

lemma update_op_ok:
  "updateExpression updates \<noteq> [] \<Longrightarrow> map_of updates ''operationId'' = None \<Longrightarrow>
   updateImageUpdateOperation operationId updates tbl
     = Inr (table_put ''operationId'' (spread_key ''operationId'' (Some (S operationId)) updates) tbl)"
  by (simp add: updateImageUpdateOperation_def put_item_def spread_key_def)

lemma processOperation_Inr:
  assumes "processOperation svc pf operationId w = (Inr res, w')"
  obtains fl content csvData fid n errs log where
    "latestFile pf (getCSVFilesForOperation operationId ''upload'' (csvFiles w)) = Some fl"
    "downloadCSVFile (fl ''s3Key'') (objects w) = Inr content"
    "parseCSVContent content = Inr csvData"
    "processGroups svc (fst (groupRows pf csvData ([], [])))
        (0, snd (groupRows pf csvData ([], [])), calls w) = (n, errs, log)"
    "fl ''fileId'' = Some (S fid)"
    "operations w' = table_put ''operationId''
        (spread_key ''operationId'' (Some (S operationId))
           [(''status'', Some (S (if length errs = 0 then ''completed'' else ''failed''))),
            (''imagesUpdated'', Some (N n)),
            (''errorMessage'', if length errs > 0 then Some (S (join ''; '' errs)) else None)])
        (table_put ''operationId''
           (spread_key ''operationId'' (Some (S operationId)) [(''status'', Some (S ''processing''))])
           (operations w))"
    "csvFiles w' = table_put ''fileId''
        (spread_key ''fileId'' (Some (S fid)) [(''status'', Some (S ''processed''))]) (csvFiles w)"
    "calls w' = log"
    "imagesUpdated res = n"
    "errors res = (if length errs > 0 then Some errs else None)"
proof -
  let ?files = "getCSVFilesForOperation operationId ''upload'' (csvFiles w)"
  from assms have opid: "operationId \<noteq> []" and nf: "length ?files \<noteq> 0"
    by (auto simp: processOperation_def Let_def split: if_splits)
  from assms opid nf obtain fl where flsel: "latestFile pf ?files = Some fl"
    by (cases "latestFile pf ?files") (auto simp: processOperation_def Let_def)
  from assms opid nf flsel obtain content where
    content: "downloadCSVFile (fl ''s3Key'') (objects w) = Inr content"
    by (cases "downloadCSVFile (fl ''s3Key'') (objects w)") (auto simp: processOperation_def Let_def)
  from assms opid nf flsel content obtain csvData where
    csv: "parseCSVContent content = Inr csvData"
    by (cases "parseCSVContent content") (auto simp: processOperation_def Let_def)
  have up1: "updateImageUpdateOperation operationId [(''status'', Some (S ''processing''))] (operations w)
      = Inr (table_put ''operationId''
           (spread_key ''operationId'' (Some (S operationId)) [(''status'', Some (S ''processing''))])
           (operations w))"
    by (rule update_op_ok) (simp_all add: updateExpression_def)
  obtain groups errors0 where gr: "groupRows pf csvData ([], []) = (groups, errors0)"
    by (cases "groupRows pf csvData ([], [])") auto
  obtain n errs log where pg: "processGroups svc groups (0, errors0, calls w) = (n, errs, log)"
    by (cases "processGroups svc groups (0, errors0, calls w)") auto
  let ?final = "[(''status'', Some (S (if length errs = 0 then ''completed'' else ''failed''))),
            (''imagesUpdated'', Some (N n)),
            (''errorMessage'', if length errs > 0 then Some (S (join ''; '' errs)) else None)]"
  have up2: "updateImageUpdateOperation operationId ?final tbl
      = Inr (table_put ''operationId'' (spread_key ''operationId'' (Some (S operationId)) ?final) tbl)" for tbl
    by (rule update_op_ok) (simp_all add: updateExpression_def)
  let ?ops2 = "table_put ''operationId'' (spread_key ''operationId'' (Some (S operationId)) ?final)
        (table_put ''operationId''
           (spread_key ''operationId'' (Some (S operationId)) [(''status'', Some (S ''processing''))])
           (operations w))"
  have run: "processOperation svc pf operationId w =
      (case updateCSVFileRecord (fl ''fileId'') [(''status'', Some (S ''processed''))] (csvFiles w) of
         Inl e \<Rightarrow> (Inl e, w\<lparr>calls := log, operations := ?ops2\<rparr>)
       | Inr files' \<Rightarrow>
           (Inr \<lparr> success = True,
                  message = ''Processed '' @ show_nat n @ '' images''
                     @ (if length errs > 0 then '' with '' @ show_nat (length errs) @ '' errors'' else []),
                  imagesUpdated = n,
                  errors = (if length errs > 0 then Some errs else None) \<rparr>,
            w\<lparr>calls := log, operations := ?ops2, csvFiles := files'\<rparr>))"
  proof (cases "errs = []")
    case True
    then show ?thesis
      using opid nf flsel content csv gr pg
      by (simp add: processOperation_def Let_def update_op_ok updateExpression_def
            cong: sum.case_cong)
  next
    case False
    then show ?thesis
      using opid nf flsel content csv gr pg
      by (simp add: processOperation_def Let_def update_op_ok updateExpression_def
            cong: sum.case_cong)
  qed
  obtain fid where fid: "fl ''fileId'' = Some (S fid)"
    using assms unfolding run
    by (auto simp: updateCSVFileRecord_def put_item_def spread_key_def
             split: option.splits attr.splits sum.splits)
  have up3: "updateCSVFileRecord (fl ''fileId'') [(''status'', Some (S ''processed''))] (csvFiles w)
      = Inr (table_put ''fileId''
        (spread_key ''fileId'' (Some (S fid)) [(''status'', Some (S ''processed''))]) (csvFiles w))"
    by (simp add: updateCSVFileRecord_def put_item_def spread_key_def fid)
  from assms have res: "res = \<lparr> success = True,
                  message = ''Processed '' @ show_nat n @ '' images''
                     @ (if length errs > 0 then '' with '' @ show_nat (length errs) @ '' errors'' else []),
                  imagesUpdated = n,
                  errors = (if length errs > 0 then Some errs else None) \<rparr>"
    and w': "w' = w\<lparr>calls := log, operations := ?ops2, csvFiles := table_put ''fileId''
        (spread_key ''fileId'' (Some (S fid)) [(''status'', Some (S ''processed''))]) (csvFiles w)\<rparr>"
    unfolding run up3 by simp_all
  show ?thesis
    by (rule that[OF flsel content csv _ fid, of n errs log])
       (simp_all add: gr pg res w')
qed

text \<open>
  C1, as amended. When the process endpoint returns, the status persisted to the
  Operation is \<open>failed\<close> if and only if the error list is not empty, that is, at least
  one row was skipped for an invalid image URL or at least one product group failed; and
  it is \<open>completed\<close> if and only if there is neither.
\<close>

theorem final_status:
  assumes "processOperation svc pf operationId w = (Inr res, w')"
  shows "\<exists>fl content csvData operation.
           latestFile pf (getCSVFilesForOperation operationId ''upload'' (csvFiles w)) = Some fl
         \<and> downloadCSVFile (fl ''s3Key'') (objects w) = Inr content
         \<and> parseCSVContent content = Inr csvData
         \<and> getImageUpdateOperation operationId (operations w') = Some operation
         \<and> (operation ''status'' = Some (S ''failed'') \<longleftrightarrow>
               invalidRows pf csvData \<noteq> []
               \<or> failedGroups (groupOutcomes svc (fst (groupRows pf csvData ([], []))) 0 (calls w)) \<noteq> [])
         \<and> (operation ''status'' = Some (S ''completed'') \<longleftrightarrow>
               invalidRows pf csvData = []
               \<and> failedGroups (groupOutcomes svc (fst (groupRows pf csvData ([], []))) 0 (calls w)) = [])"
proof -
  from assms obtain fl content csvData fid n errs log where
    sel: "latestFile pf (getCSVFilesForOperation operationId ''upload'' (csvFiles w)) = Some fl"
      "downloadCSVFile (fl ''s3Key'') (objects w) = Inr content"
      "parseCSVContent content = Inr csvData"
    and pg: "processGroups svc (fst (groupRows pf csvData ([], [])))
        (0, snd (groupRows pf csvData ([], [])), calls w) = (n, errs, log)"
    and ops: "operations w' = table_put ''operationId''
        (spread_key ''operationId'' (Some (S operationId))
           [(''status'', Some (S (if length errs = 0 then ''completed'' else ''failed''))),
            (''imagesUpdated'', Some (N n)),
            (''errorMessage'', if length errs > 0 then Some (S (join ''; '' errs)) else None)])
        (table_put ''operationId''
           (spread_key ''operationId'' (Some (S operationId)) [(''status'', Some (S ''processing''))])
           (operations w))"
    by (rule processOperation_Inr)
  let ?outs = "groupOutcomes svc (fst (groupRows pf csvData ([], []))) 0 (calls w)"
  let ?operation = "spread_key ''operationId'' (Some (S operationId))
           [(''status'', Some (S (if length errs = 0 then ''completed'' else ''failed''))),
            (''imagesUpdated'', Some (N n)),
            (''errorMessage'', if length errs > 0 then Some (S (join ''; '' errs)) else None)]"
  have "errs = snd (groupRows pf csvData ([], []))
                 @ map (\<lambda>(pid, e). failMessage pid e) (failedGroups ?outs)"
    using pg unfolding processGroups_outcomes by simp
  then have errs: "errs = [] \<longleftrightarrow> invalidRows pf csvData = [] \<and> failedGroups ?outs = []"
    by (simp add: groupRows_errors)
  have "?operation ''operationId'' = Some (S operationId)"
    by (simp add: spread_key_def)
  then have got: "getImageUpdateOperation operationId (operations w') = Some ?operation"
    unfolding ops getImageUpdateOperation_def by (rule get_put)
  have st: "?operation ''status'' = Some (S (if errs = [] then ''completed'' else ''failed''))"
    by (simp add: spread_key_def)
  have f: "?operation ''status'' = Some (S ''failed'') \<longleftrightarrow>
               invalidRows pf csvData \<noteq> [] \<or> failedGroups ?outs \<noteq> []"
    unfolding st using errs by auto
  have c: "?operation ''status'' = Some (S ''completed'') \<longleftrightarrow>
               invalidRows pf csvData = [] \<and> failedGroups ?outs = []"
    unfolding st using errs by auto
  show ?thesis using sel got f c by blast
qed

text \<open>
  C9. When the process endpoint has run through all product groups and returns, the
  File Record of the selected upload (the latest one) has status \<open>processed\<close>, whether
  the final status of the operation is \<open>completed\<close> or \<open>failed\<close>.
\<close>

theorem file_marked_processed:
  assumes "processOperation svc pf operationId w = (Inr res, w')"
  shows "\<exists>fl fid fileRecord.
           latestFile pf (getCSVFilesForOperation operationId ''upload'' (csvFiles w)) = Some fl
         \<and> fl ''fileId'' = Some (S fid)
         \<and> get_item ''fileId'' fid (csvFiles w') = Some fileRecord
         \<and> fileRecord ''status'' = Some (S ''processed'')"
proof -
  from assms obtain fl fid where
    sel: "latestFile pf (getCSVFilesForOperation operationId ''upload'' (csvFiles w)) = Some fl"
    and fid: "fl ''fileId'' = Some (S fid)"
    and files: "csvFiles w' = table_put ''fileId''
        (spread_key ''fileId'' (Some (S fid)) [(''status'', Some (S ''processed''))]) (csvFiles w)"
    by (rule processOperation_Inr)
  let ?rec = "spread_key ''fileId'' (Some (S fid)) [(''status'', Some (S ''processed''))]"
  have "?rec ''fileId'' = Some (S fid)" by (simp add: spread_key_def)
  then have "get_item ''fileId'' fid (csvFiles w') = Some ?rec"
    unfolding files by (rule get_put)
  moreover have "?rec ''status'' = Some (S ''processed'')" by (simp add: spread_key_def)
  ultimately show ?thesis using sel fid by blast
qed

lemmas run_defs =
  processOperation_def stubWorld_def stubPlatform_def stubCatalog_def
  getCSVFilesForOperation_def latestFile_def downloadCSVFile_def parseCSVContent_def
  nonblank_lines_def trim_def is_ws_def row_of_line_def parseCSVLine_def field_or_empty_def
  updateImageUpdateOperation_def updateExpression_def put_item_def spread_key_def
  isValidImageUrl_def skipMessage_def processGroup_def set_add_def failMessage_def
  updateCSVFileRecord_def show_nat.simps get_item_def getImageUpdateOperation_def Let_def

text \<open>
  The claim as written lets only a failed catalog mutation end the run \<open>failed\<close>. A
  text with one row whose URL is \<open>not-a-url\<close> is run without a single catalog call, and
  the operation ends \<open>failed\<close>.
\<close>

theorem final_status_counterexample:
  "fst (processOperation (stubCatalog []) stubPlatform ''op1'' (stubWorld csvInvalidUrl))
     = Inr \<lparr> success = True, message = ''Processed 0 images with 1 errors'', imagesUpdated = 0,
             errors = Some [''Skipping product p1: Invalid image URL '' @ [CHR 0x22]
                              @ ''not-a-url'' @ [CHR 0x22]] \<rparr>
   \<and> calls (snd (processOperation (stubCatalog []) stubPlatform ''op1'' (stubWorld csvInvalidUrl))) = []
   \<and> getImageUpdateOperation ''op1''
        (operations (snd (processOperation (stubCatalog []) stubPlatform ''op1''
           (stubWorld csvInvalidUrl)))) \<noteq> None
   \<and> the (getImageUpdateOperation ''op1''
        (operations (snd (processOperation (stubCatalog []) stubPlatform ''op1''
           (stubWorld csvInvalidUrl))))) ''status'' = Some (S ''failed'')"
  by (simp add: run_defs csvInvalidUrl_def)

lemma run_two_products:
  "processOperation (stubCatalog [''p2'']) stubPlatform ''op1'' (stubWorld csvTwoProducts)
   = (Inr \<lparr> success = True, message = ''Processed 2 images with 1 errors'', imagesUpdated = 2,
             errors = Some [''Failed to update product p2: Error: Image upload error: 422''] \<rparr>,
      snd (processOperation (stubCatalog [''p2'']) stubPlatform ''op1'' (stubWorld csvTwoProducts)))"
proof -
  have "fst (processOperation (stubCatalog [''p2'']) stubPlatform ''op1'' (stubWorld csvTwoProducts))
        = Inr \<lparr> success = True, message = ''Processed 2 images with 1 errors'', imagesUpdated = 2,
             errors = Some [''Failed to update product p2: Error: Image upload error: 422''] \<rparr>"
    by (simp add: run_defs csvTwoProducts_def)
  then show ?thesis by (simp add: prod_eq_iff)
qed

theorem final_status_witness:
  "\<exists>fl content csvData operation.
     latestFile stubPlatform
       (getCSVFilesForOperation ''op1'' ''upload'' (csvFiles (stubWorld csvTwoProducts))) = Some fl
     \<and> downloadCSVFile (fl ''s3Key'') (objects (stubWorld csvTwoProducts)) = Inr content
     \<and> parseCSVContent content = Inr csvData
     \<and> getImageUpdateOperation ''op1''
          (operations (snd (processOperation (stubCatalog [''p2'']) stubPlatform ''op1''
             (stubWorld csvTwoProducts)))) = Some operation
     \<and> (operation ''status'' = Some (S ''failed'') \<longleftrightarrow>
           invalidRows stubPlatform csvData \<noteq> []
           \<or> failedGroups (groupOutcomes (stubCatalog [''p2''])
                 (fst (groupRows stubPlatform csvData ([], []))) 0
                 (calls (stubWorld csvTwoProducts))) \<noteq> [])
     \<and> (operation ''status'' = Some (S ''completed'') \<longleftrightarrow>
           invalidRows stubPlatform csvData = []
           \<and> failedGroups (groupOutcomes (stubCatalog [''p2''])
                 (fst (groupRows stubPlatform csvData ([], []))) 0
                 (calls (stubWorld csvTwoProducts))) = [])"
  by (rule final_status[OF run_two_products])

theorem file_marked_processed_witness:
  "\<exists>fl fid fileRecord.
     latestFile stubPlatform
       (getCSVFilesForOperation ''op1'' ''upload'' (csvFiles (stubWorld csvTwoProducts))) = Some fl
     \<and> fl ''fileId'' = Some (S fid)
     \<and> get_item ''fileId'' fid
          (csvFiles (snd (processOperation (stubCatalog [''p2'']) stubPlatform ''op1''
             (stubWorld csvTwoProducts)))) = Some fileRecord
     \<and> fileRecord ''status'' = Some (S ''processed'')"
  by (rule file_marked_processed[OF run_two_products])

end
